theory Spec2Isabelle
  imports Main
begin

section \<open>Transducers as functions from an input string to its outputs\<close>

text \<open>
  The measure tagger is built from the transducer combinators of pynini. A transducer
  denotes a relation between input strings and output strings; it is modelled as the
  function that gives, for a whole input string, the list of outputs the transducer
  produces for it. The empty list means that the input is not matched. Strings are byte
  strings, as in pynini's default byte mode. Path weights play no part in the measure
  tagger (it attaches none), so they are not modelled.
\<close>

type_synonym Fst = "string \<Rightarrow> string list"

text \<open>A string used as a transducer: it accepts exactly itself and copies it out.\<close>

definition accep :: "string \<Rightarrow> Fst" where
  "accep s inp = (if inp = s then [s] else [])"

text \<open>\<^verbatim>\<open>pynini.cross(a, b)\<close>: the input \<open>a\<close> is rewritten to \<open>b\<close>.\<close>

definition cross :: "string \<Rightarrow> string \<Rightarrow> Fst" where
  "cross a b inp = (if inp = a then [b] else [])"

text \<open>\<^verbatim>\<open>pynutil.insert(s)\<close>: consumes nothing and emits \<open>s\<close>.\<close>

definition pynutil_insert :: "string \<Rightarrow> Fst" where
  "pynutil_insert s = cross [] s"

text \<open>\<^verbatim>\<open>pynutil.delete(f)\<close>: matches what \<open>f\<close> matches and emits nothing.\<close>

definition pynutil_delete :: "Fst \<Rightarrow> Fst" where
  "pynutil_delete f inp = map (\<lambda>_. []) (f inp)"

text \<open>The operator \<^verbatim>\<open>|\<close>: the outputs of either side.\<close>

definition union_fst :: "Fst \<Rightarrow> Fst \<Rightarrow> Fst" where
  "union_fst f g inp = f inp @ g inp"

text \<open>
  The operator \<^verbatim>\<open>+\<close>: the input is cut in two at every position, the left part is
  given to \<open>f\<close> and the right part to \<open>g\<close>. The right part is only looked at when the
  left part is matched.
\<close>

definition split_at :: "Fst \<Rightarrow> Fst \<Rightarrow> string \<Rightarrow> nat \<Rightarrow> string list" where
  "split_at f g inp k =
     (case f (take k inp) of
        [] \<Rightarrow> []
      | x # xs \<Rightarrow> concat (map (\<lambda>a. map (\<lambda>b. a @ b) (g (drop k inp))) (x # xs)))"

definition concat_fst :: "Fst \<Rightarrow> Fst \<Rightarrow> Fst" where
  "concat_fst f g inp = concat (map (split_at f g inp) [0..<Suc (length inp)])"

text \<open>
  A chain \<^verbatim>\<open>f1 + f2 + ... + fn\<close> of the source is written \<open>cat [f1, f2, ..., fn]\<close>.
\<close>

primrec cat :: "Fst list \<Rightarrow> Fst" where
  "cat [] = accep []"
| "cat (f # fs) = concat_fst f (cat fs)"

text \<open>The operator \<^verbatim>\<open>@\<close> (composition): every output of \<open>f\<close> is given to \<open>g\<close>.\<close>

definition compose_fst :: "Fst \<Rightarrow> Fst \<Rightarrow> Fst" where
  "compose_fst f g inp = concat (map g (f inp))"

text \<open>\<^verbatim>\<open>pynini.closure(f, 0, 1)\<close>: \<open>f\<close> is optional.\<close>

definition closure_0_1 :: "Fst \<Rightarrow> Fst" where
  "closure_0_1 f = union_fst (accep []) f"

text \<open>
  \<^verbatim>\<open>pynini.closure(f)\<close> and \<^verbatim>\<open>pynini.closure(f, 1)\<close> for an \<open>f\<close> whose matches each
  consume at least one symbol (the measure tagger iterates character classes only):
  the first piece of the input is non-empty and the rest is iterated again.
\<close>

fun closure_star :: "Fst \<Rightarrow> Fst" where
  "closure_star f [] = [[]]"
| "closure_star f (c # cs) =
     concat (map (\<lambda>k. case f (take (Suc k) (c # cs)) of
                         [] \<Rightarrow> []
                       | x # xs \<Rightarrow> concat (map (\<lambda>a. map (\<lambda>b. a @ b) (closure_star f (drop k cs))) (x # xs)))
                 [0..<Suc (length cs)])"

definition closure_plus :: "Fst \<Rightarrow> Fst" where
  "closure_plus f = concat_fst f (closure_star f)"

text \<open>\<^verbatim>\<open>f - g\<close> on acceptors: what \<open>f\<close> accepts and \<open>g\<close> does not.\<close>

definition difference :: "Fst \<Rightarrow> Fst \<Rightarrow> Fst" where
  "difference f g inp = (case g inp of [] \<Rightarrow> f inp | _ # _ \<Rightarrow> [])"

text \<open>A chain \<^verbatim>\<open>f1 | f2 | ... | fn\<close> of the source is written \<open>alt [f1, f2, ..., fn]\<close>.\<close>

primrec alt :: "Fst list \<Rightarrow> Fst" where
  "alt [] = (\<lambda>_. [])"
| "alt (f # fs) = union_fst f (alt fs)"

text \<open>
  \<^verbatim>\<open>pynini.union(*chars)\<close> over the characters of a string: a character class,
  accepting any one of them.
\<close>

definition char_class :: "string \<Rightarrow> Fst" where
  "char_class cs inp = (case inp of [c] \<Rightarrow> (if c \<in> set cs then [[c]] else []) | _ \<Rightarrow> [])"

text \<open>
  \<^verbatim>\<open>pynini.string_file\<close> on a table of tab-separated pairs, one per line: the union
  of \<open>cross k v\<close> over the lines, in the order of the file.
\<close>

definition string_file :: "(string \<times> string) list \<Rightarrow> Fst" where
  "string_file tbl inp = map snd (filter (\<lambda>kv. fst kv = inp) tbl)"


section \<open>What the tagger imports from \<^verbatim>\<open>graph_utils\<close>\<close>

text \<open>
  The module \<^verbatim>\<open>graph_utils\<close> is not among the sources. What the tagger imports from
  it is modelled from the spec, name by name. The pluraliser \<^verbatim>\<open>SINGULAR_TO_PLURAL\<close>
  and the table \<^verbatim>\<open>data/measurements.tsv\<close> are not modelled: they are parameters
  (record \<open>resources\<close> below).
\<close>

definition ascii_lowercase :: string where
  "ascii_lowercase = ''abcdefghijklmnopqrstuvwxyz''"

definition ascii_uppercase :: string where
  "ascii_uppercase = ''ABCDEFGHIJKLMNOPQRSTUVWXYZ''"

text \<open>
  Modelled from the spec: the constant \<^verbatim>\<open>NEMO_ALPHA\<close> of \<^verbatim>\<open>graph_utils\<close>. The spec
  has the unit of a dash-joined shape "taken as one or more alphabetic characters": the
  class of the ASCII letters.
\<close>

definition NEMO_ALPHA :: Fst where
  "NEMO_ALPHA = char_class (ascii_lowercase @ ascii_uppercase)"

text \<open>Space, tab, line feed and carriage return.\<close>

definition white_space_chars :: string where
  "white_space_chars = [CHR '' '', CHR 0x09, CHR 0x0A, CHR 0x0D]"

definition NEMO_WHITE_SPACE :: Fst where
  "NEMO_WHITE_SPACE = char_class white_space_chars"

text \<open>
  Modelled from the spec: the constant \<^verbatim>\<open>NEMO_NON_BREAKING_SPACE\<close> of
  \<^verbatim>\<open>graph_utils\<close>, the "single non-breaking separator" that replaces whitespace in the
  output: the non-breaking space U+00A0, in UTF-8.
\<close>

definition NEMO_NON_BREAKING_SPACE :: string where
  "NEMO_NON_BREAKING_SPACE = [CHR 0xC2, CHR 0xA0]"

text \<open>
  Modelled from the spec: the constant \<^verbatim>\<open>NEMO_SIGMA\<close> of \<^verbatim>\<open>graph_utils\<close>. The spec
  obtains the magnitude "by excluding the literal 1 token from the cardinal grammar's
  domain": \<^verbatim>\<open>NEMO_SIGMA\<close> accepts every string, and \<^verbatim>\<open>NEMO_SIGMA - "1"\<close> every string
  but \<open>1\<close>.
\<close>

definition NEMO_SIGMA :: Fst where
  "NEMO_SIGMA inp = [inp]"

text \<open>
  Modelled from the spec: the helper \<^verbatim>\<open>delete_space\<close> of \<^verbatim>\<open>graph_utils\<close>, by which
  "surrounding whitespace, if any, is discarded": it matches any run of whitespace
  characters, the empty one included, and emits nothing.
\<close>

definition delete_space :: Fst where
  "delete_space = pynutil_delete (closure_star NEMO_WHITE_SPACE)"

primrec space_to_nbsp :: "string \<Rightarrow> string" where
  "space_to_nbsp [] = []"
| "space_to_nbsp (c # cs) =
     (if c = CHR '' '' then NEMO_NON_BREAKING_SPACE else [c]) @ space_to_nbsp cs"

text \<open>
  Modelled from the spec: the helper \<^verbatim>\<open>convert_space\<close> of \<^verbatim>\<open>graph_utils\<close>. The spec
  keeps the internal whitespace of a multi-word unit name "via a designated joined
  representation", so that the name is carried as a single token: every space of an
  output becomes the non-breaking separator.
\<close>

definition convert_space :: "Fst \<Rightarrow> Fst" where
  "convert_space f = compose_fst f (\<lambda>s. [space_to_nbsp s])"

text \<open>
  Modelled from the spec: the method \<^verbatim>\<open>add_tokens\<close> of the class \<^verbatim>\<open>GraphFst\<close> of
  \<^verbatim>\<open>graph_utils\<close>, the "outer-token envelope". The output syntax of the spec is
  \<^verbatim>\<open>measure { ... }\<close>: the name of the tagger and an opening brace before the output,
  a closing brace after it.
\<close>

definition add_tokens :: "string \<Rightarrow> Fst \<Rightarrow> Fst" where
  "add_tokens name f = cat [pynutil_insert (name @ '' { ''), f, pynutil_insert '' }'']"


section \<open>The measure tagger\<close>

text \<open>
  The constructor \<^verbatim>\<open>MeasureFst.__init__\<close> receives the cardinal and the decimal tagger.
  It reads the attributes \<^verbatim>\<open>graph\<close> and \<^verbatim>\<open>range_graph\<close> of the first and the
  attribute \<^verbatim>\<open>final_graph_wo_negative\<close> of the second; the unit table and the
  pluraliser are the module's resources. Every local variable of the constructor is a
  definition below, under its own name, taking what it is built from as arguments.
\<close>

record CardinalFst =
  graph :: Fst
  range_graph :: Fst

record DecimalFst =
  final_graph_wo_negative :: Fst

record resources =
  measurements_tsv :: "(string \<times> string) list"
  SINGULAR_TO_PLURAL :: Fst

definition cardinal_graph :: "CardinalFst \<Rightarrow> bool \<Rightarrow> Fst" where
  "cardinal_graph cardinal deterministic =
     (if \<not> deterministic then union_fst (graph cardinal) (range_graph cardinal)
      else graph cardinal)"

definition graph_unit_plural :: "resources \<Rightarrow> Fst" where
  "graph_unit_plural res =
     convert_space (compose_fst (string_file (measurements_tsv res)) (SINGULAR_TO_PLURAL res))"

definition graph_unit :: "resources \<Rightarrow> Fst" where
  "graph_unit res = convert_space (string_file (measurements_tsv res))"

definition optional_graph_negative :: Fst where
  \<open>optional_graph_negative =
     closure_0_1 (cat [pynutil_insert ''negative: '', cross ''-'' ''"true" ''])\<close>

definition graph_unit2 :: "resources \<Rightarrow> Fst" where
  "graph_unit2 res =
     cat [cross ''/'' ''per'', delete_space, pynutil_insert NEMO_NON_BREAKING_SPACE,
          graph_unit res]"

definition optional_graph_unit2 :: "resources \<Rightarrow> Fst" where
  "optional_graph_unit2 res =
     closure_0_1 (cat [delete_space, pynutil_insert NEMO_NON_BREAKING_SPACE, graph_unit2 res])"

definition unit_plural :: "resources \<Rightarrow> Fst" where
  \<open>unit_plural res =
     cat [pynutil_insert ''units: "'',
          union_fst (cat [graph_unit_plural res, optional_graph_unit2 res]) (graph_unit2 res),
          pynutil_insert ''"'']\<close>

definition unit_singular :: "resources \<Rightarrow> Fst" where
  \<open>unit_singular res =
     cat [pynutil_insert ''units: "'',
          union_fst (cat [graph_unit res, optional_graph_unit2 res]) (graph_unit2 res),
          pynutil_insert ''"'']\<close>

definition subgraph_decimal :: "resources \<Rightarrow> DecimalFst \<Rightarrow> Fst" where
  \<open>subgraph_decimal res decimal =
     cat [pynutil_insert ''decimal { '',
          optional_graph_negative,
          final_graph_wo_negative decimal,
          delete_space,
          pynutil_insert '' } '',
          unit_plural res]\<close>

text \<open>The first assignment to \<^verbatim>\<open>subgraph_cardinal\<close> (lines 87 to 96).\<close>

definition subgraph_cardinal_plural :: "resources \<Rightarrow> Fst \<Rightarrow> Fst" where
  \<open>subgraph_cardinal_plural res cg =
     cat [pynutil_insert ''cardinal { '',
          optional_graph_negative,
          pynutil_insert ''integer: "'',
          compose_fst (difference NEMO_SIGMA (accep ''1'')) cg,
          delete_space,
          pynutil_insert ''"'',
          pynutil_insert '' } '',
          unit_plural res]\<close>

text \<open>The alternative added by \<^verbatim>\<open>subgraph_cardinal |= ...\<close> (lines 98 to 107).\<close>

definition subgraph_cardinal_singular :: "resources \<Rightarrow> Fst" where
  \<open>subgraph_cardinal_singular res =
     cat [pynutil_insert ''cardinal { '',
          optional_graph_negative,
          pynutil_insert ''integer: "'',
          cross ''1'' ''one'',
          delete_space,
          pynutil_insert ''"'',
          pynutil_insert '' } '',
          unit_singular res]\<close>

definition subgraph_cardinal :: "resources \<Rightarrow> Fst \<Rightarrow> Fst" where
  "subgraph_cardinal res cg =
     union_fst (subgraph_cardinal_plural res cg) (subgraph_cardinal_singular res)"

definition cardinal_dash_alpha :: "Fst \<Rightarrow> Fst" where
  \<open>cardinal_dash_alpha cg =
     cat [pynutil_insert ''cardinal { integer: "'',
          cg,
          cross ''-'' [],
          pynutil_insert ''" } units: "'',
          closure_plus NEMO_ALPHA,
          pynutil_insert ''"'']\<close>

definition alpha_dash_cardinal :: "Fst \<Rightarrow> Fst" where
  \<open>alpha_dash_cardinal cg =
     cat [pynutil_insert ''units: "'',
          closure_plus NEMO_ALPHA,
          cross ''-'' [],
          pynutil_insert ''"'',
          pynutil_insert '' cardinal { integer: "'',
          cg,
          pynutil_insert ''" } preserve_order: true'']\<close>

definition decimal_dash_alpha :: "DecimalFst \<Rightarrow> Fst" where
  \<open>decimal_dash_alpha decimal =
     cat [pynutil_insert ''decimal { '',
          final_graph_wo_negative decimal,
          cross ''-'' [],
          pynutil_insert '' } units: "'',
          closure_plus NEMO_ALPHA,
          pynutil_insert ''"'']\<close>

definition alpha_dash_decimal :: "DecimalFst \<Rightarrow> Fst" where
  \<open>alpha_dash_decimal decimal =
     cat [pynutil_insert ''units: "'',
          closure_plus NEMO_ALPHA,
          cross ''-'' [],
          pynutil_insert ''"'',
          pynutil_insert '' decimal { '',
          final_graph_wo_negative decimal,
          pynutil_insert '' } preserve_order: true'']\<close>

definition final_graph :: "resources \<Rightarrow> Fst \<Rightarrow> DecimalFst \<Rightarrow> Fst" where
  "final_graph res cg decimal =
     alt [subgraph_decimal res decimal,
          subgraph_cardinal res cg,
          cardinal_dash_alpha cg,
          alpha_dash_cardinal cg,
          decimal_dash_alpha decimal,
          alpha_dash_decimal decimal]"

text \<open>
  The attribute \<^verbatim>\<open>self.fst\<close> that the constructor leaves behind. \<^verbatim>\<open>optimize()\<close>
  changes the automaton and not the relation it denotes.
\<close>

definition MeasureFst :: "resources \<Rightarrow> CardinalFst \<Rightarrow> DecimalFst \<Rightarrow> bool \<Rightarrow> Fst" where
  "MeasureFst res cardinal decimal deterministic =
     add_tokens ''measure'' (final_graph res (cardinal_graph cardinal deterministic) decimal)"


section \<open>Sample collaborators\<close>

text \<open>
  A fragment of a cardinal grammar, of a decimal grammar and of the unit table, with a
  pluraliser that appends an s: enough to run the tagger on the examples of its
  docstring.
\<close>

definition sample_cardinal :: CardinalFst where
  "sample_cardinal =
     \<lparr>graph = string_file [(''1'', ''one''), (''5'', ''five''), (''12'', ''twelve'')],
      range_graph = string_file [(''2-3'', ''two to three'')]\<rparr>"

definition sample_decimal :: DecimalFst where
  \<open>sample_decimal =
     \<lparr>final_graph_wo_negative = string_file [(''.5'', ''fractional_part: "five"'')]\<rparr>\<close>

definition sample_resources :: resources where
  "sample_resources =
     \<lparr>measurements_tsv =
        [(''kg'', ''kilogram''), (''hour'', ''hour''), (''miles'', ''mile''),
         (''sq ft'', ''square foot'')],
      SINGULAR_TO_PLURAL = (\<lambda>s. [s @ ''s''])\<rparr>"


section \<open>The relation a transducer denotes\<close>

text \<open>
  Each combinator is characterised by the pairs of input and output it relates. The
  properties of the tagger below are proved from these characterisations; two of them
  also run the tagger on a sample input.
\<close>

lemma in_accep: "out \<in> set (accep s inp) \<longleftrightarrow> inp = s \<and> out = s"
  by (auto simp: accep_def)

lemma in_cross: "out \<in> set (cross a b inp) \<longleftrightarrow> inp = a \<and> out = b"
  by (auto simp: cross_def)

lemma in_insert: "out \<in> set (pynutil_insert s inp) \<longleftrightarrow> inp = [] \<and> out = s"
  by (auto simp: pynutil_insert_def cross_def)

lemma in_delete: "out \<in> set (pynutil_delete f inp) \<longleftrightarrow> out = [] \<and> f inp \<noteq> []"
  by (cases "f inp") (auto simp: pynutil_delete_def)

lemma in_union: "out \<in> set (union_fst f g inp) \<longleftrightarrow> out \<in> set (f inp) \<or> out \<in> set (g inp)"
  by (simp add: union_fst_def)

lemma in_split_at:
  "out \<in> set (split_at f g inp k) \<longleftrightarrow>
     (\<exists>x y. out = x @ y \<and> x \<in> set (f (take k inp)) \<and> y \<in> set (g (drop k inp)))"
  by (cases "f (take k inp)") (auto simp: split_at_def)

lemma in_concat_fst_split:
  "out \<in> set (concat_fst f g inp) \<longleftrightarrow> (\<exists>k\<le>length inp. out \<in> set (split_at f g inp k))"
proof -
  have "set [0..<Suc (length inp)] = {k. k \<le> length inp}" by auto
  then show ?thesis
    unfolding concat_fst_def set_concat set_map by blast
qed

lemma in_concat_fst:
  "out \<in> set (concat_fst f g inp) \<longleftrightarrow>
     (\<exists>u v x y. inp = u @ v \<and> out = x @ y \<and> x \<in> set (f u) \<and> y \<in> set (g v))"
proof
  assume "out \<in> set (concat_fst f g inp)"
  then obtain k x y where "out = x @ y" "x \<in> set (f (take k inp))" "y \<in> set (g (drop k inp))"
    unfolding in_concat_fst_split in_split_at by blast
  moreover have "inp = take k inp @ drop k inp" by simp
  ultimately show "\<exists>u v x y. inp = u @ v \<and> out = x @ y \<and> x \<in> set (f u) \<and> y \<in> set (g v)"
    by blast
next
  assume "\<exists>u v x y. inp = u @ v \<and> out = x @ y \<and> x \<in> set (f u) \<and> y \<in> set (g v)"
  then obtain u v x y where h: "inp = u @ v" "out = x @ y" "x \<in> set (f u)" "y \<in> set (g v)"
    by blast
  then have "out \<in> set (split_at f g inp (length u))"
    by (auto simp: in_split_at)
  moreover have "length u \<le> length inp"
    using h(1) by simp
  ultimately show "out \<in> set (concat_fst f g inp)"
    unfolding in_concat_fst_split by blast
qed

text \<open>
  The operators \<^verbatim>\<open>+\<close> and \<^verbatim>\<open>|\<close> of the source associate to the left, \<open>cat\<close> and
  \<open>alt\<close> nest to the right. Both operators are associative, so the chains denote the
  same relation.
\<close>

lemma concat_fst_assoc:
  "set (concat_fst (concat_fst f g) h inp) = set (concat_fst f (concat_fst g h) inp)"
proof (rule set_eqI)
  fix out
  have "out \<in> set (concat_fst (concat_fst f g) h inp) \<longleftrightarrow>
          (\<exists>u v w x y z. inp = (u @ v) @ w \<and> out = (x @ y) @ z
             \<and> x \<in> set (f u) \<and> y \<in> set (g v) \<and> z \<in> set (h w))"
    unfolding in_concat_fst by blast
  also have "\<dots> \<longleftrightarrow>
          (\<exists>u v w x y z. inp = u @ (v @ w) \<and> out = x @ (y @ z)
             \<and> x \<in> set (f u) \<and> y \<in> set (g v) \<and> z \<in> set (h w))"
    by simp
  also have "\<dots> \<longleftrightarrow> out \<in> set (concat_fst f (concat_fst g h) inp)"
    unfolding in_concat_fst by blast
  finally show "out \<in> set (concat_fst (concat_fst f g) h inp)
                  \<longleftrightarrow> out \<in> set (concat_fst f (concat_fst g h) inp)" .
qed

lemma union_fst_assoc:
  "union_fst (union_fst f g) h inp = union_fst f (union_fst g h) inp"
  by (simp add: union_fst_def)

lemma in_cat_Nil: "out \<in> set (cat [] inp) \<longleftrightarrow> inp = [] \<and> out = []"
  by (simp add: in_accep)

lemma in_cat_Cons:
  "out \<in> set (cat (f # fs) inp) \<longleftrightarrow>
     (\<exists>u v x y. inp = u @ v \<and> out = x @ y \<and> x \<in> set (f u) \<and> y \<in> set (cat fs v))"
  by (simp add: in_concat_fst)

lemma in_compose:
  "out \<in> set (compose_fst f g inp) \<longleftrightarrow> (\<exists>m. m \<in> set (f inp) \<and> out \<in> set (g m))"
  by (auto simp: compose_fst_def)

lemma in_closure_0_1:
  "out \<in> set (closure_0_1 f inp) \<longleftrightarrow> (inp = [] \<and> out = []) \<or> out \<in> set (f inp)"
  by (auto simp: closure_0_1_def in_union in_accep)

lemma in_difference:
  "out \<in> set (difference f g inp) \<longleftrightarrow> out \<in> set (f inp) \<and> g inp = []"
  by (cases "g inp") (auto simp: difference_def)

lemma in_alt_Nil: "out \<in> set (alt [] inp) \<longleftrightarrow> False"
  by simp

lemma in_alt_Cons:
  "out \<in> set (alt (f # fs) inp) \<longleftrightarrow> out \<in> set (f inp) \<or> out \<in> set (alt fs inp)"
  by (simp add: in_union)

lemma in_char_class:
  "out \<in> set (char_class cs inp) \<longleftrightarrow> (\<exists>c. inp = [c] \<and> out = [c] \<and> c \<in> set cs)"
  by (auto simp: char_class_def split: list.splits)

lemma in_string_file: "out \<in> set (string_file tbl inp) \<longleftrightarrow> (inp, out) \<in> set tbl"
  by (force simp: string_file_def)

lemma in_closure_star_Cons:
  "out \<in> set (closure_star f (c # cs)) \<longleftrightarrow>
     (\<exists>k\<le>length cs. \<exists>a b. out = a @ b \<and> a \<in> set (f (c # take k cs))
        \<and> b \<in> set (closure_star f (drop k cs)))"
proof -
  have piece: "out \<in> set (case f (c # take k cs) of [] \<Rightarrow> []
                 | x # xs \<Rightarrow> concat (map (\<lambda>a. map (\<lambda>b. a @ b) (closure_star f (drop k cs))) (x # xs)))
     \<longleftrightarrow> (\<exists>a b. out = a @ b \<and> a \<in> set (f (c # take k cs)) \<and> b \<in> set (closure_star f (drop k cs)))"
    for k
    by (cases "f (c # take k cs)") auto
  have "set [0..<Suc (length cs)] = {k. k \<le> length cs}" by auto
  then have "out \<in> set (closure_star f (c # cs)) \<longleftrightarrow>
     (\<exists>k\<le>length cs. out \<in> set (case f (c # take k cs) of [] \<Rightarrow> []
                 | x # xs \<Rightarrow> concat (map (\<lambda>a. map (\<lambda>b. a @ b) (closure_star f (drop k cs))) (x # xs))))"
    unfolding closure_star.simps take_Suc_Cons set_concat set_map by blast
  then show ?thesis
    unfolding piece .
qed

lemma in_closure_star_class:
  "out \<in> set (closure_star (char_class cs) inp) \<longleftrightarrow> out = inp \<and> set inp \<subseteq> set cs"
proof (induction inp arbitrary: out)
  case Nil
  show ?case by auto
next
  case (Cons c s)
  have one: "a \<in> set (char_class cs (c # take k s)) \<longleftrightarrow> take k s = [] \<and> a = [c] \<and> c \<in> set cs"
    for a k
    by (auto simp: in_char_class)
  have "out \<in> set (closure_star (char_class cs) (c # s)) \<longleftrightarrow>
          (\<exists>b. out = c # b \<and> c \<in> set cs \<and> b \<in> set (closure_star (char_class cs) s))"
  proof
    assume "out \<in> set (closure_star (char_class cs) (c # s))"
    then obtain k a b where h: "k \<le> length s" "out = a @ b" "a \<in> set (char_class cs (c # take k s))"
      "b \<in> set (closure_star (char_class cs) (drop k s))"
      unfolding in_closure_star_Cons by blast
    from h(3) have t: "take k s = []" "a = [c]" "c \<in> set cs" by (simp_all add: one)
    from t(1) have "drop k s = s" by (metis append_Nil append_take_drop_id)
    with h t show "\<exists>b. out = c # b \<and> c \<in> set cs \<and> b \<in> set (closure_star (char_class cs) s)"
      by simp
  next
    assume "\<exists>b. out = c # b \<and> c \<in> set cs \<and> b \<in> set (closure_star (char_class cs) s)"
    then obtain b where "out = [c] @ b" "c \<in> set cs" "b \<in> set (closure_star (char_class cs) s)"
      by auto
    then have "\<exists>a b. out = a @ b \<and> a \<in> set (char_class cs (c # take 0 s))
        \<and> b \<in> set (closure_star (char_class cs) (drop 0 s))"
      by (auto simp: in_char_class)
    then show "out \<in> set (closure_star (char_class cs) (c # s))"
      unfolding in_closure_star_Cons by blast
  qed
  then show ?case by (auto simp: Cons.IH)
qed

lemma in_closure_plus_class:
  "out \<in> set (closure_plus (char_class cs) inp) \<longleftrightarrow> out = inp \<and> inp \<noteq> [] \<and> set inp \<subseteq> set cs"
proof (cases inp)
  case Nil
  then show ?thesis
    by (simp add: closure_plus_def in_concat_fst in_char_class)
next
  case (Cons c s)
  have "out \<in> set (closure_plus (char_class cs) (c # s)) \<longleftrightarrow>
          (\<exists>u v d. c # s = u @ v \<and> out = [d] @ v \<and> u = [d] \<and> d \<in> set cs \<and> set v \<subseteq> set cs)"
    unfolding closure_plus_def in_concat_fst in_char_class in_closure_star_class by blast
  also have "\<dots> \<longleftrightarrow> out = c # s \<and> c \<in> set cs \<and> set s \<subseteq> set cs"
    by auto
  finally show ?thesis using Cons by simp
qed

lemma in_delete_space:
  "out \<in> set (delete_space inp) \<longleftrightarrow> out = [] \<and> set inp \<subseteq> set white_space_chars"
proof -
  have "closure_star NEMO_WHITE_SPACE inp \<noteq> [] \<longleftrightarrow> set inp \<subseteq> set white_space_chars"
    using in_closure_star_class [of _ white_space_chars inp]
    unfolding NEMO_WHITE_SPACE_def by (cases "closure_star (char_class white_space_chars) inp") auto
  then show ?thesis by (simp add: delete_space_def in_delete)
qed

lemma in_convert_space:
  "out \<in> set (convert_space f inp) \<longleftrightarrow> (\<exists>m. m \<in> set (f inp) \<and> out = space_to_nbsp m)"
  by (auto simp: convert_space_def in_compose)


section \<open>The relations of the tagger's parts\<close>

declare cat.simps [simp del] alt.simps [simp del]

lemma in_cat_single: "out \<in> set (cat [f] inp) \<longleftrightarrow> out \<in> set (f inp)"
  by (simp add: in_cat_Cons in_cat_Nil)

lemma in_cat_pair:
  "out \<in> set (cat [f, g] inp) \<longleftrightarrow>
     (\<exists>u v x y. inp = u @ v \<and> out = x @ y \<and> x \<in> set (f u) \<and> y \<in> set (g v))"
  unfolding in_cat_Cons [of _ f] in_cat_single ..

lemma in_cat_end_insert:
  "out \<in> set (cat [f, pynutil_insert s] inp) \<longleftrightarrow> (\<exists>x. out = x @ s \<and> x \<in> set (f inp))"
  by (auto simp: in_cat_pair in_insert)

lemma in_cat_insert:
  "out \<in> set (cat (pynutil_insert s # fs) inp) \<longleftrightarrow> (\<exists>y. out = s @ y \<and> y \<in> set (cat fs inp))"
  by (auto simp: in_cat_Cons in_insert)

lemma in_cat_cross:
  "out \<in> set (cat (cross a b # fs) inp) \<longleftrightarrow>
     (\<exists>v y. inp = a @ v \<and> out = b @ y \<and> y \<in> set (cat fs v))"
  by (auto simp: in_cat_Cons in_cross)

lemma in_cat_delete_space:
  "out \<in> set (cat (delete_space # fs) inp) \<longleftrightarrow>
     (\<exists>ws v. inp = ws @ v \<and> set ws \<subseteq> set white_space_chars \<and> out \<in> set (cat fs v))"
  by (auto simp: in_cat_Cons in_delete_space)

lemma in_optional_graph_negative:
  "out \<in> set (optional_graph_negative inp) \<longleftrightarrow>
     (inp = [] \<and> out = []) \<or> (inp = ''-'' \<and> out = ''negative: \"true\" '')"
  by (auto simp: optional_graph_negative_def in_closure_0_1 in_cat_insert in_cat_cross in_cat_Nil)

lemma in_cat_negative:
  "out \<in> set (cat (optional_graph_negative # fs) inp) \<longleftrightarrow>
     out \<in> set (cat fs inp) \<or>
     (\<exists>v y. inp = ''-'' @ v \<and> out = ''negative: \"true\" '' @ y \<and> y \<in> set (cat fs v))"
proof -
  have "out \<in> set (cat (optional_graph_negative # fs) inp) \<longleftrightarrow>
     (\<exists>u v x y. inp = u @ v \<and> out = x @ y
        \<and> (u = [] \<and> x = [] \<or> u = ''-'' \<and> x = ''negative: \"true\" '') \<and> y \<in> set (cat fs v))"
    unfolding in_cat_Cons in_optional_graph_negative ..
  also have "\<dots> \<longleftrightarrow>
     (\<exists>v y. inp = [] @ v \<and> out = [] @ y \<and> y \<in> set (cat fs v)) \<or>
     (\<exists>v y. inp = ''-'' @ v \<and> out = ''negative: \"true\" '' @ y \<and> y \<in> set (cat fs v))"
    by blast
  finally show ?thesis by simp
qed

lemma in_graph_unit:
  "out \<in> set (graph_unit res inp) \<longleftrightarrow>
     (\<exists>v. (inp, v) \<in> set (measurements_tsv res) \<and> out = space_to_nbsp v)"
  by (simp add: graph_unit_def in_convert_space in_string_file)

lemma in_graph_unit_plural:
  "out \<in> set (graph_unit_plural res inp) \<longleftrightarrow>
     (\<exists>v p. (inp, v) \<in> set (measurements_tsv res) \<and> p \<in> set (SINGULAR_TO_PLURAL res v)
        \<and> out = space_to_nbsp p)"
  by (auto simp: graph_unit_plural_def in_convert_space in_compose in_string_file)

lemma in_graph_unit2:
  "out \<in> set (graph_unit2 res inp) \<longleftrightarrow>
     (\<exists>ws k v. inp = ''/'' @ ws @ k \<and> set ws \<subseteq> set white_space_chars
        \<and> (k, v) \<in> set (measurements_tsv res)
        \<and> out = ''per'' @ NEMO_NON_BREAKING_SPACE @ space_to_nbsp v)"
  unfolding graph_unit2_def in_cat_cross in_cat_delete_space in_cat_insert in_cat_single in_graph_unit
  by blast

lemma in_optional_graph_unit2:
  "out \<in> set (optional_graph_unit2 res inp) \<longleftrightarrow>
     (inp = [] \<and> out = []) \<or>
     (\<exists>ws v. inp = ws @ v \<and> set ws \<subseteq> set white_space_chars
        \<and> (\<exists>p. out = NEMO_NON_BREAKING_SPACE @ p \<and> p \<in> set (graph_unit2 res v)))"
  unfolding optional_graph_unit2_def in_closure_0_1 in_cat_delete_space in_cat_insert in_cat_single
  by auto

lemma in_unit_plural:
  "out \<in> set (unit_plural res inp) \<longleftrightarrow>
     (\<exists>u. out = ''units: \"'' @ u @ ''\"'' \<and>
        ((\<exists>k r p s. inp = k @ r \<and> u = p @ s \<and> p \<in> set (graph_unit_plural res k)
             \<and> s \<in> set (optional_graph_unit2 res r))
         \<or> u \<in> set (graph_unit2 res inp)))"
  unfolding unit_plural_def in_cat_insert in_cat_end_insert in_union
  unfolding in_cat_pair
  by auto blast+

lemma in_unit_singular:
  "out \<in> set (unit_singular res inp) \<longleftrightarrow>
     (\<exists>u. out = ''units: \"'' @ u @ ''\"'' \<and>
        ((\<exists>k r p s. inp = k @ r \<and> u = p @ s \<and> p \<in> set (graph_unit res k)
             \<and> s \<in> set (optional_graph_unit2 res r))
         \<or> u \<in> set (graph_unit2 res inp)))"
  unfolding unit_singular_def in_cat_insert in_cat_end_insert in_union
  unfolding in_cat_pair
  by auto blast+

lemma in_restricted_cardinal:
  "out \<in> set (compose_fst (difference NEMO_SIGMA (accep ''1'')) cg inp) \<longleftrightarrow>
     inp \<noteq> ''1'' \<and> out \<in> set (cg inp)"
  by (auto simp: in_compose in_difference NEMO_SIGMA_def accep_def)

lemma in_alpha_plus:
  "out \<in> set (closure_plus NEMO_ALPHA inp) \<longleftrightarrow>
     out = inp \<and> inp \<noteq> [] \<and> set inp \<subseteq> set (ascii_lowercase @ ascii_uppercase)"
  unfolding NEMO_ALPHA_def in_closure_plus_class ..

lemma catI:
  "x \<in> set (f u) \<Longrightarrow> y \<in> set (cat fs v) \<Longrightarrow> x @ y \<in> set (cat (f # fs) (u @ v))"
  unfolding in_cat_Cons by blast

lemma cat_insertI:
  "y \<in> set (cat fs inp) \<Longrightarrow> s @ y \<in> set (cat (pynutil_insert s # fs) inp)"
  unfolding in_cat_insert by blast

lemma cat_delete_spaceI:
  "set ws \<subseteq> set white_space_chars \<Longrightarrow> y \<in> set (cat fs v)
     \<Longrightarrow> y \<in> set (cat (delete_space # fs) (ws @ v))"
  unfolding in_cat_delete_space by blast

lemma cat_crossI:
  "y \<in> set (cat fs v) \<Longrightarrow> b @ y \<in> set (cat (cross a b # fs) (a @ v))"
  unfolding in_cat_cross by blast

lemma cat_singleI: "y \<in> set (f inp) \<Longrightarrow> y \<in> set (cat [f] inp)"
  unfolding in_cat_single .

lemma cat_end_insertI: "s \<in> set (cat [pynutil_insert s] [])"
  unfolding in_cat_single in_insert by simp

lemma in_subgraph_cardinal_plural:
  "out \<in> set (subgraph_cardinal_plural res cg inp) \<longleftrightarrow>
     (\<exists>sg n ws r neg w U. inp = sg @ n @ ws @ r \<and> neg \<in> set (optional_graph_negative sg)
        \<and> n \<noteq> ''1'' \<and> w \<in> set (cg n) \<and> set ws \<subseteq> set white_space_chars
        \<and> U \<in> set (unit_plural res r)
        \<and> out = ''cardinal { '' @ neg @ ''integer: \"'' @ w @ ''\"'' @ '' } '' @ U)"
  (is "?L \<longleftrightarrow> ?R")
proof
  assume ?L
  then show ?R
    unfolding subgraph_cardinal_plural_def in_cat_insert in_cat_Cons [of _ optional_graph_negative]
    in_cat_Cons [of _ "compose_fst _ _"] in_cat_delete_space in_cat_single in_restricted_cardinal
    by blast
next
  assume ?R
  then obtain sg n ws r neg w U where h: "inp = sg @ n @ ws @ r" "neg \<in> set (optional_graph_negative sg)"
    "n \<noteq> ''1''" "w \<in> set (cg n)" "set ws \<subseteq> set white_space_chars" "U \<in> set (unit_plural res r)"
    "out = ''cardinal { '' @ neg @ ''integer: \"'' @ w @ ''\"'' @ '' } '' @ U"
    by blast
  from h(3,4) have c: "w \<in> set (compose_fst (difference NEMO_SIGMA (accep ''1'')) cg n)"
    by (simp add: in_restricted_cardinal)
  show ?L
    unfolding subgraph_cardinal_plural_def h(1) h(7)
    by (intro cat_insertI catI [of _ optional_graph_negative, OF h(2)]
          catI [of _ "compose_fst (difference NEMO_SIGMA (accep ''1'')) cg", OF c]
          cat_delete_spaceI [OF h(5)] cat_singleI h(6))
qed

lemma in_subgraph_cardinal_singular:
  "out \<in> set (subgraph_cardinal_singular res inp) \<longleftrightarrow>
     (\<exists>sg ws r neg U. inp = sg @ ''1'' @ ws @ r \<and> neg \<in> set (optional_graph_negative sg)
        \<and> set ws \<subseteq> set white_space_chars
        \<and> U \<in> set (unit_singular res r)
        \<and> out = ''cardinal { '' @ neg @ ''integer: \"'' @ ''one'' @ ''\"'' @ '' } '' @ U)"
  (is "?L \<longleftrightarrow> ?R")
proof
  assume ?L
  then show ?R
    unfolding subgraph_cardinal_singular_def in_cat_insert in_cat_Cons [of _ optional_graph_negative]
    in_cat_cross in_cat_delete_space in_cat_single
    by blast
next
  assume ?R
  then obtain sg ws r neg U where h: "inp = sg @ ''1'' @ ws @ r" "neg \<in> set (optional_graph_negative sg)"
    "set ws \<subseteq> set white_space_chars" "U \<in> set (unit_singular res r)"
    "out = ''cardinal { '' @ neg @ ''integer: \"'' @ ''one'' @ ''\"'' @ '' } '' @ U"
    by blast
  show ?L
    unfolding subgraph_cardinal_singular_def h(1) h(5)
    by (intro cat_insertI catI [of _ optional_graph_negative, OF h(2)] cat_crossI
          cat_delete_spaceI [OF h(3)] cat_singleI h(4))
qed

lemma in_subgraph_cardinal:
  "out \<in> set (subgraph_cardinal res cg inp) \<longleftrightarrow>
     out \<in> set (subgraph_cardinal_plural res cg inp) \<or> out \<in> set (subgraph_cardinal_singular res inp)"
  by (simp add: subgraph_cardinal_def in_union)

lemma in_subgraph_decimal:
  "out \<in> set (subgraph_decimal res decimal inp) \<longleftrightarrow>
     (\<exists>sg n ws r neg d U. inp = sg @ n @ ws @ r \<and> neg \<in> set (optional_graph_negative sg)
        \<and> d \<in> set (final_graph_wo_negative decimal n) \<and> set ws \<subseteq> set white_space_chars
        \<and> U \<in> set (unit_plural res r)
        \<and> out = ''decimal { '' @ neg @ d @ '' } '' @ U)"
  (is "?L \<longleftrightarrow> ?R")
proof
  assume ?L
  then show ?R
    unfolding subgraph_decimal_def in_cat_insert in_cat_Cons [of _ optional_graph_negative]
    in_cat_Cons [of _ "final_graph_wo_negative _"] in_cat_delete_space in_cat_single
    by blast
next
  assume ?R
  then obtain sg n ws r neg d U where h: "inp = sg @ n @ ws @ r" "neg \<in> set (optional_graph_negative sg)"
    "d \<in> set (final_graph_wo_negative decimal n)" "set ws \<subseteq> set white_space_chars"
    "U \<in> set (unit_plural res r)" "out = ''decimal { '' @ neg @ d @ '' } '' @ U"
    by blast
  show ?L
    unfolding subgraph_decimal_def h(1) h(6)
    by (intro cat_insertI catI [of _ optional_graph_negative, OF h(2)]
          catI [of _ "final_graph_wo_negative decimal", OF h(3)]
          cat_delete_spaceI [OF h(4)] cat_singleI h(5))
qed

lemma in_cardinal_dash_alpha:
  "out \<in> set (cardinal_dash_alpha cg inp) \<longleftrightarrow>
     (\<exists>n a w. inp = n @ ''-'' @ a \<and> w \<in> set (cg n) \<and> a \<in> set (closure_plus NEMO_ALPHA a)
        \<and> out = ''cardinal { integer: \"'' @ w @ ''\" } units: \"'' @ a @ ''\"'')"
  (is "?L \<longleftrightarrow> ?R")
proof
  assume ?L
  then show ?R
    unfolding cardinal_dash_alpha_def in_cat_insert in_cat_Cons [of _ cg] in_cat_cross
      in_cat_end_insert in_alpha_plus append_Nil
    by blast
next
  assume ?R
  then obtain n a w where h: "inp = n @ ''-'' @ a" "w \<in> set (cg n)"
    "a \<in> set (closure_plus NEMO_ALPHA a)"
    "out = ''cardinal { integer: \"'' @ w @ [] @ ''\" } units: \"'' @ a @ ''\"''"
    by auto
  have "inp = n @ ''-'' @ a @ []" using h(1) by simp
  then show ?L
    unfolding cardinal_dash_alpha_def h(4)
    by (simp only:)
       (intro cat_insertI catI [of _ cg, OF h(2)] cat_crossI
          catI [of _ "closure_plus NEMO_ALPHA", OF h(3)] cat_end_insertI)
qed

lemma in_alpha_dash_cardinal:
  "out \<in> set (alpha_dash_cardinal cg inp) \<longleftrightarrow>
     (\<exists>n a w. inp = a @ ''-'' @ n \<and> w \<in> set (cg n) \<and> a \<in> set (closure_plus NEMO_ALPHA a)
        \<and> out = ''units: \"'' @ a @ ''\"'' @ '' cardinal { integer: \"'' @ w
                 @ ''\" } preserve_order: true'')"
  (is "?L \<longleftrightarrow> ?R")
proof
  assume ?L
  then show ?R
    unfolding alpha_dash_cardinal_def in_cat_insert in_cat_Cons [of _ "closure_plus _"] in_cat_cross
      in_cat_end_insert in_alpha_plus append_Nil
    by blast
next
  assume ?R
  then obtain n a w where h: "inp = a @ ''-'' @ n" "w \<in> set (cg n)"
    "a \<in> set (closure_plus NEMO_ALPHA a)"
    "out = ''units: \"'' @ a @ [] @ ''\"'' @ '' cardinal { integer: \"'' @ w
             @ ''\" } preserve_order: true''"
    by auto
  have "w @ ''\" } preserve_order: true'' \<in> set (cat [cg, pynutil_insert ''\" } preserve_order: true''] n)"
    unfolding in_cat_end_insert using h(2) by blast
  then show ?L
    unfolding alpha_dash_cardinal_def h(1) h(4)
    by (intro cat_insertI catI [of _ "closure_plus NEMO_ALPHA", OF h(3)] cat_crossI)
qed

lemma in_decimal_dash_alpha:
  "out \<in> set (decimal_dash_alpha decimal inp) \<longleftrightarrow>
     (\<exists>n a d. inp = n @ ''-'' @ a \<and> d \<in> set (final_graph_wo_negative decimal n)
        \<and> a \<in> set (closure_plus NEMO_ALPHA a)
        \<and> out = ''decimal { '' @ d @ '' } units: \"'' @ a @ ''\"'')"
  (is "?L \<longleftrightarrow> ?R")
proof
  assume ?L
  then show ?R
    unfolding decimal_dash_alpha_def in_cat_insert in_cat_Cons [of _ "final_graph_wo_negative _"]
      in_cat_cross in_cat_end_insert in_alpha_plus append_Nil
    by blast
next
  assume ?R
  then obtain n a d where h: "inp = n @ ''-'' @ a" "d \<in> set (final_graph_wo_negative decimal n)"
    "a \<in> set (closure_plus NEMO_ALPHA a)"
    "out = ''decimal { '' @ d @ [] @ '' } units: \"'' @ a @ ''\"''"
    by auto
  have "inp = n @ ''-'' @ a @ []" using h(1) by simp
  then show ?L
    unfolding decimal_dash_alpha_def h(4)
    by (simp only:)
       (intro cat_insertI catI [of _ "final_graph_wo_negative decimal", OF h(2)] cat_crossI
          catI [of _ "closure_plus NEMO_ALPHA", OF h(3)] cat_end_insertI)
qed

lemma in_alpha_dash_decimal:
  "out \<in> set (alpha_dash_decimal decimal inp) \<longleftrightarrow>
     (\<exists>n a d. inp = a @ ''-'' @ n \<and> d \<in> set (final_graph_wo_negative decimal n)
        \<and> a \<in> set (closure_plus NEMO_ALPHA a)
        \<and> out = ''units: \"'' @ a @ ''\"'' @ '' decimal { '' @ d @ '' } preserve_order: true'')"
  (is "?L \<longleftrightarrow> ?R")
proof
  assume ?L
  then show ?R
    unfolding alpha_dash_decimal_def in_cat_insert in_cat_Cons [of _ "closure_plus _"] in_cat_cross
      in_cat_end_insert in_alpha_plus append_Nil
    by blast
next
  assume ?R
  then obtain n a d where h: "inp = a @ ''-'' @ n" "d \<in> set (final_graph_wo_negative decimal n)"
    "a \<in> set (closure_plus NEMO_ALPHA a)"
    "out = ''units: \"'' @ a @ [] @ ''\"'' @ '' decimal { '' @ d @ '' } preserve_order: true''"
    by auto
  have "d @ '' } preserve_order: true''
          \<in> set (cat [final_graph_wo_negative decimal, pynutil_insert '' } preserve_order: true''] n)"
    unfolding in_cat_end_insert using h(2) by blast
  then show ?L
    unfolding alpha_dash_decimal_def h(1) h(4)
    by (intro cat_insertI catI [of _ "closure_plus NEMO_ALPHA", OF h(3)] cat_crossI)
qed

lemma in_final_graph:
  "out \<in> set (final_graph res cg decimal inp) \<longleftrightarrow>
     out \<in> set (subgraph_decimal res decimal inp) \<or>
     out \<in> set (subgraph_cardinal res cg inp) \<or>
     out \<in> set (cardinal_dash_alpha cg inp) \<or>
     out \<in> set (alpha_dash_cardinal cg inp) \<or>
     out \<in> set (decimal_dash_alpha decimal inp) \<or>
     out \<in> set (alpha_dash_decimal decimal inp)"
  unfolding final_graph_def in_alt_Cons in_alt_Nil by simp

lemma in_add_tokens:
  "out \<in> set (add_tokens name f inp) \<longleftrightarrow>
     (\<exists>y. out = name @ '' { '' @ y @ '' }'' \<and> y \<in> set (f inp))"
  unfolding add_tokens_def in_cat_insert in_cat_end_insert by auto

lemma in_MeasureFst:
  "out \<in> set (MeasureFst res cardinal decimal deterministic inp) \<longleftrightarrow>
     (\<exists>y. out = ''measure { '' @ y @ '' }''
        \<and> y \<in> set (final_graph res (cardinal_graph cardinal deterministic) decimal inp))"
  unfolding MeasureFst_def in_add_tokens by simp


text \<open>How an output is built, part by part.\<close>

lemma graph_unitI:
  "(k, v) \<in> set (measurements_tsv res) \<Longrightarrow> space_to_nbsp v \<in> set (graph_unit res k)"
  unfolding in_graph_unit by blast

lemma graph_unit_pluralI:
  "(k, v) \<in> set (measurements_tsv res) \<Longrightarrow> p \<in> set (SINGULAR_TO_PLURAL res v)
     \<Longrightarrow> space_to_nbsp p \<in> set (graph_unit_plural res k)"
  unfolding in_graph_unit_plural by blast

lemma graph_unit2I:
  "(k, v) \<in> set (measurements_tsv res) \<Longrightarrow> set ws \<subseteq> set white_space_chars
     \<Longrightarrow> ''per'' @ NEMO_NON_BREAKING_SPACE @ space_to_nbsp v \<in> set (graph_unit2 res (''/'' @ ws @ k))"
  unfolding in_graph_unit2 by blast

lemma optional_graph_unit2_emptyI: "[] \<in> set (optional_graph_unit2 res [])"
  unfolding in_optional_graph_unit2 by blast

lemma optional_graph_unit2I:
  "set ws \<subseteq> set white_space_chars \<Longrightarrow> p \<in> set (graph_unit2 res v)
     \<Longrightarrow> NEMO_NON_BREAKING_SPACE @ p \<in> set (optional_graph_unit2 res (ws @ v))"
  unfolding in_optional_graph_unit2 by blast

lemma unit_plural_primaryI:
  "p \<in> set (graph_unit_plural res k) \<Longrightarrow> s \<in> set (optional_graph_unit2 res r)
     \<Longrightarrow> ''units: \"'' @ (p @ s) @ ''\"'' \<in> set (unit_plural res (k @ r))"
  unfolding in_unit_plural by blast

lemma unit_plural_perI:
  "u \<in> set (graph_unit2 res inp) \<Longrightarrow> ''units: \"'' @ u @ ''\"'' \<in> set (unit_plural res inp)"
  unfolding in_unit_plural by blast

lemma unit_singular_primaryI:
  "p \<in> set (graph_unit res k) \<Longrightarrow> s \<in> set (optional_graph_unit2 res r)
     \<Longrightarrow> ''units: \"'' @ (p @ s) @ ''\"'' \<in> set (unit_singular res (k @ r))"
  unfolding in_unit_singular by blast

lemma unit_singular_perI:
  "u \<in> set (graph_unit2 res inp) \<Longrightarrow> ''units: \"'' @ u @ ''\"'' \<in> set (unit_singular res inp)"
  unfolding in_unit_singular by blast

lemma subgraph_cardinal_pluralI:
  "neg \<in> set (optional_graph_negative sg) \<Longrightarrow> n \<noteq> ''1'' \<Longrightarrow> w \<in> set (cg n)
     \<Longrightarrow> set ws \<subseteq> set white_space_chars \<Longrightarrow> U \<in> set (unit_plural res r)
     \<Longrightarrow> ''cardinal { '' @ neg @ ''integer: \"'' @ w @ ''\"'' @ '' } '' @ U
           \<in> set (subgraph_cardinal res cg (sg @ n @ ws @ r))"
  unfolding in_subgraph_cardinal in_subgraph_cardinal_plural by blast

lemma subgraph_cardinal_singularI:
  "neg \<in> set (optional_graph_negative sg)
     \<Longrightarrow> set ws \<subseteq> set white_space_chars \<Longrightarrow> U \<in> set (unit_singular res r)
     \<Longrightarrow> ''cardinal { '' @ neg @ ''integer: \"'' @ ''one'' @ ''\"'' @ '' } '' @ U
           \<in> set (subgraph_cardinal res cg (sg @ ''1'' @ ws @ r))"
  unfolding in_subgraph_cardinal in_subgraph_cardinal_singular by blast

lemma subgraph_decimalI:
  "neg \<in> set (optional_graph_negative sg) \<Longrightarrow> d \<in> set (final_graph_wo_negative decimal n)
     \<Longrightarrow> set ws \<subseteq> set white_space_chars \<Longrightarrow> U \<in> set (unit_plural res r)
     \<Longrightarrow> ''decimal { '' @ neg @ d @ '' } '' @ U
           \<in> set (subgraph_decimal res decimal (sg @ n @ ws @ r))"
  unfolding in_subgraph_decimal by blast

lemma no_signI: "[] \<in> set (optional_graph_negative [])"
  unfolding in_optional_graph_negative by blast

lemma signI: "''negative: \"true\" '' \<in> set (optional_graph_negative ''-'')"
  unfolding in_optional_graph_negative by blast



lemma MeasureFstI:
  "y \<in> set (final_graph res (cardinal_graph cardinal deterministic) decimal inp)
     \<Longrightarrow> ''measure { '' @ y @ '' }'' \<in> set (MeasureFst res cardinal decimal deterministic inp)"
  unfolding in_MeasureFst by blast


section \<open>Properties of the tagger\<close>

subsection \<open>Dash-joined shapes\<close>

text \<open>
  Claim C4. The four dash-joined branches relate exactly the following pairs. In the
  number-dash-unit shape the input is a numeric span accepted by the cardinal (or the
  decimal) grammar, a dash, and one or more alphabetic characters; the dash does not
  reach the output, the alphabetic span is copied as it is into the units field (the
  branch does not take the unit table at all), the numeric field comes first and the
  output ends with the closing quote of the units field, so there is no
  \<open>preserve_order\<close> field. In the unit-dash-number shape the units field, with the
  alphabetic span copied as it is, comes first, the numeric field follows and the output
  ends with \<open>preserve_order: true\<close>. Every output of the four branches is an output of
  the final graph.
\<close>

theorem dash_joined_shapes:
  "(out \<in> set (cardinal_dash_alpha cg inp) \<longleftrightarrow>
      (\<exists>n a w. inp = n @ ''-'' @ a \<and> w \<in> set (cg n)
         \<and> a \<noteq> [] \<and> set a \<subseteq> set (ascii_lowercase @ ascii_uppercase)
         \<and> out = ''cardinal { integer: \"'' @ w @ ''\" } units: \"'' @ a @ ''\"''))
   \<and> (out \<in> set (decimal_dash_alpha decimal inp) \<longleftrightarrow>
      (\<exists>n a d. inp = n @ ''-'' @ a \<and> d \<in> set (final_graph_wo_negative decimal n)
         \<and> a \<noteq> [] \<and> set a \<subseteq> set (ascii_lowercase @ ascii_uppercase)
         \<and> out = ''decimal { '' @ d @ '' } units: \"'' @ a @ ''\"''))
   \<and> (out \<in> set (alpha_dash_cardinal cg inp) \<longleftrightarrow>
      (\<exists>n a w. inp = a @ ''-'' @ n \<and> w \<in> set (cg n)
         \<and> a \<noteq> [] \<and> set a \<subseteq> set (ascii_lowercase @ ascii_uppercase)
         \<and> out = ''units: \"'' @ a @ ''\" cardinal { integer: \"'' @ w
                  @ ''\" } preserve_order: true''))
   \<and> (out \<in> set (alpha_dash_decimal decimal inp) \<longleftrightarrow>
      (\<exists>n a d. inp = a @ ''-'' @ n \<and> d \<in> set (final_graph_wo_negative decimal n)
         \<and> a \<noteq> [] \<and> set a \<subseteq> set (ascii_lowercase @ ascii_uppercase)
         \<and> out = ''units: \"'' @ a @ ''\" decimal { '' @ d @ '' } preserve_order: true''))
   \<and> set (cardinal_dash_alpha cg inp) \<union> set (decimal_dash_alpha decimal inp)
       \<union> set (alpha_dash_cardinal cg inp) \<union> set (alpha_dash_decimal decimal inp)
       \<subseteq> set (final_graph res cg decimal inp)"
proof (intro conjI)
  show "out \<in> set (cardinal_dash_alpha cg inp) \<longleftrightarrow>
      (\<exists>n a w. inp = n @ ''-'' @ a \<and> w \<in> set (cg n)
         \<and> a \<noteq> [] \<and> set a \<subseteq> set (ascii_lowercase @ ascii_uppercase)
         \<and> out = ''cardinal { integer: \"'' @ w @ ''\" } units: \"'' @ a @ ''\"'')"
    unfolding in_cardinal_dash_alpha in_alpha_plus by simp
  show "out \<in> set (decimal_dash_alpha decimal inp) \<longleftrightarrow>
      (\<exists>n a d. inp = n @ ''-'' @ a \<and> d \<in> set (final_graph_wo_negative decimal n)
         \<and> a \<noteq> [] \<and> set a \<subseteq> set (ascii_lowercase @ ascii_uppercase)
         \<and> out = ''decimal { '' @ d @ '' } units: \"'' @ a @ ''\"'')"
    unfolding in_decimal_dash_alpha in_alpha_plus by simp
  show "out \<in> set (alpha_dash_cardinal cg inp) \<longleftrightarrow>
      (\<exists>n a w. inp = a @ ''-'' @ n \<and> w \<in> set (cg n)
         \<and> a \<noteq> [] \<and> set a \<subseteq> set (ascii_lowercase @ ascii_uppercase)
         \<and> out = ''units: \"'' @ a @ ''\" cardinal { integer: \"'' @ w
                  @ ''\" } preserve_order: true'')"
    unfolding in_alpha_dash_cardinal in_alpha_plus by simp
  show "out \<in> set (alpha_dash_decimal decimal inp) \<longleftrightarrow>
      (\<exists>n a d. inp = a @ ''-'' @ n \<and> d \<in> set (final_graph_wo_negative decimal n)
         \<and> a \<noteq> [] \<and> set a \<subseteq> set (ascii_lowercase @ ascii_uppercase)
         \<and> out = ''units: \"'' @ a @ ''\" decimal { '' @ d @ '' } preserve_order: true'')"
    unfolding in_alpha_dash_decimal in_alpha_plus by simp
  show "set (cardinal_dash_alpha cg inp) \<union> set (decimal_dash_alpha decimal inp)
       \<union> set (alpha_dash_cardinal cg inp) \<union> set (alpha_dash_decimal decimal inp)
       \<subseteq> set (final_graph res cg decimal inp)"
    using in_final_graph [of _ res cg decimal inp] by blast
qed


text \<open>The branches at \<open>5-ounce\<close> and \<open>ounce-5\<close>.\<close>

theorem dash_joined_shapes_witness:
  "''cardinal { integer: \"five\" } units: \"ounce\"''
     \<in> set (final_graph sample_resources (graph sample_cardinal) sample_decimal ''5-ounce'')
   \<and> ''units: \"ounce\" cardinal { integer: \"five\" } preserve_order: true''
     \<in> set (final_graph sample_resources (graph sample_cardinal) sample_decimal ''ounce-5'')"
proof -
  have "''cardinal { integer: \"five\" } units: \"ounce\"''
          \<in> set (cardinal_dash_alpha (graph sample_cardinal) ''5-ounce'')"
    apply (rule dash_joined_shapes [THEN conjunct1, THEN iffD2])
    apply (rule exI [of _ "''5''"], rule exI [of _ "''ounce''"], rule exI [of _ "''five''"])
    apply (simp add: sample_cardinal_def string_file_def ascii_lowercase_def)
    done
  moreover have "''units: \"ounce\" cardinal { integer: \"five\" } preserve_order: true''
          \<in> set (alpha_dash_cardinal (graph sample_cardinal) ''ounce-5'')"
    apply (rule dash_joined_shapes [THEN conjunct2, THEN conjunct2, THEN conjunct1, THEN iffD2])
    apply (rule exI [of _ "''5''"], rule exI [of _ "''ounce''"], rule exI [of _ "''five''"])
    apply (simp add: sample_cardinal_def string_file_def ascii_lowercase_def)
    done
  ultimately show ?thesis
    using dash_joined_shapes [THEN conjunct2, THEN conjunct2, THEN conjunct2, THEN conjunct2,
            of "graph sample_cardinal" _ sample_decimal sample_resources]
    by blast
qed


subsection \<open>The literal 1 in the dash-joined branches\<close>





subsection \<open>A per-unit suffix standing alone\<close>

text \<open>
  Claim C9. In the plural and in the singular unit rule alike, the alternative
  \<open>graph_unit2\<close> stands alone in the alternation: for every unit \<open>k2\<close> of the table,
  with name \<open>v2\<close>, the unit part \<open>/k2\<close> is matched with the units field \<open>per v2\<close> (the
  word per, the separator \<open>NEMO_NON_BREAKING_SPACE\<close>, the name with its spaces joined)
  and no primary unit. So a number followed by \<open>/k2\<close> is recognised by the plain
  cardinal branch, the literal \<open>1\<close> included.
\<close>

theorem per_unit_without_primary_unit:
  assumes "(k2, v2) \<in> set (measurements_tsv res)" and "w \<in> set (cg n)" and "n \<noteq> ''1''"
  shows "''units: \"per'' @ NEMO_NON_BREAKING_SPACE @ space_to_nbsp v2 @ ''\"''
           \<in> set (unit_plural res (''/'' @ k2))
       \<and> ''units: \"per'' @ NEMO_NON_BREAKING_SPACE @ space_to_nbsp v2 @ ''\"''
           \<in> set (unit_singular res (''/'' @ k2))
       \<and> ''cardinal { integer: \"'' @ w @ ''\" } units: \"per'' @ NEMO_NON_BREAKING_SPACE
             @ space_to_nbsp v2 @ ''\"''
           \<in> set (final_graph res cg decimal (n @ ''/'' @ k2))
       \<and> ''cardinal { integer: \"one\" } units: \"per'' @ NEMO_NON_BREAKING_SPACE
             @ space_to_nbsp v2 @ ''\"''
           \<in> set (final_graph res cg decimal (''1/'' @ k2))"
proof (intro conjI)
  let ?per = "''per'' @ NEMO_NON_BREAKING_SPACE @ space_to_nbsp v2"
  have per: "?per \<in> set (graph_unit2 res (''/'' @ [] @ k2))"
    by (rule graph_unit2I [OF assms(1)]) simp
  then have per': "?per \<in> set (graph_unit2 res (''/'' @ k2))" by simp
  have pl: "''units: \"'' @ ?per @ ''\"'' \<in> set (unit_plural res (''/'' @ k2))"
    by (rule unit_plural_perI [OF per'])
  have sg: "''units: \"'' @ ?per @ ''\"'' \<in> set (unit_singular res (''/'' @ k2))"
    by (rule unit_singular_perI [OF per'])
  show "''units: \"per'' @ NEMO_NON_BREAKING_SPACE @ space_to_nbsp v2 @ ''\"''
           \<in> set (unit_plural res (''/'' @ k2))"
    using pl by simp
  show "''units: \"per'' @ NEMO_NON_BREAKING_SPACE @ space_to_nbsp v2 @ ''\"''
           \<in> set (unit_singular res (''/'' @ k2))"
    using sg by simp
  have "''cardinal { '' @ [] @ ''integer: \"'' @ w @ ''\"'' @ '' } '' @ ''units: \"'' @ ?per @ ''\"''
          \<in> set (subgraph_cardinal res cg ([] @ n @ [] @ ''/'' @ k2))"
    by (rule subgraph_cardinal_pluralI [of "[]" "[]" n w cg "[]", OF no_signI assms(3) assms(2) _ pl])
       simp
  then show "''cardinal { integer: \"'' @ w @ ''\" } units: \"per'' @ NEMO_NON_BREAKING_SPACE
             @ space_to_nbsp v2 @ ''\"''
           \<in> set (final_graph res cg decimal (n @ ''/'' @ k2))"
    unfolding in_final_graph by simp
  have "''cardinal { '' @ [] @ ''integer: \"'' @ ''one'' @ ''\"'' @ '' } '' @ ''units: \"'' @ ?per @ ''\"''
          \<in> set (subgraph_cardinal res cg ([] @ ''1'' @ [] @ ''/'' @ k2))"
    by (rule subgraph_cardinal_singularI [of "[]" "[]" "[]", OF no_signI _ sg]) simp
  then show "''cardinal { integer: \"one\" } units: \"per'' @ NEMO_NON_BREAKING_SPACE
             @ space_to_nbsp v2 @ ''\"''
           \<in> set (final_graph res cg decimal (''1/'' @ k2))"
    unfolding in_final_graph by simp
qed

text \<open>The inputs \<open>5/hour\<close> and \<open>1/hour\<close> with the sample collaborators.\<close>

theorem per_unit_without_primary_unit_witness:
  "''cardinal { integer: \"five\" } units: \"per'' @ NEMO_NON_BREAKING_SPACE @ ''hour\"''
     \<in> set (final_graph sample_resources (graph sample_cardinal) sample_decimal ''5/hour'')
   \<and> ''cardinal { integer: \"one\" } units: \"per'' @ NEMO_NON_BREAKING_SPACE @ ''hour\"''
     \<in> set (final_graph sample_resources (graph sample_cardinal) sample_decimal ''1/hour'')"
proof -
  have hour: "(''hour'', ''hour'') \<in> set (measurements_tsv sample_resources)"
    by (simp add: sample_resources_def)
  have five: "''five'' \<in> set (graph sample_cardinal ''5'')"
    by (simp add: sample_cardinal_def string_file_def)
  show ?thesis
    using per_unit_without_primary_unit [OF hour, of "''five''" "graph sample_cardinal" "''5''", OF five,
            of sample_decimal]
    by simp
qed



lemma in_optional_graph_unit2_flat:
  "out \<in> set (optional_graph_unit2 res inp) \<longleftrightarrow>
     (inp = [] \<and> out = []) \<or>
     (\<exists>ws1 ws2 k v. inp = ws1 @ ''/'' @ ws2 @ k
        \<and> set ws1 \<subseteq> set white_space_chars \<and> set ws2 \<subseteq> set white_space_chars
        \<and> (k, v) \<in> set (measurements_tsv res)
        \<and> out = NEMO_NON_BREAKING_SPACE @ ''per'' @ NEMO_NON_BREAKING_SPACE @ space_to_nbsp v)"
  unfolding in_optional_graph_unit2 in_graph_unit2 by blast

subsection \<open>The compound per-unit suffix\<close>

text \<open>
  Claim C5. The suffix \<open>graph_unit2\<close> matches a slash, any whitespace and a unit of the
  table, and emits the word per, the separator \<open>NEMO_NON_BREAKING_SPACE\<close> and the
  singular name of that unit (the pluraliser is not applied to it). The optional suffix
  after a primary unit matches either nothing, emitting nothing, or any whitespace and
  one such suffix, emitting the separator before it; there is no second repetition.
  So for units \<open>k1\<close> and \<open>k2\<close> of the table the unit part \<open>k1 / k2\<close>, whatever
  whitespace surrounds the slash, gives a units field that is the primary unit's form,
  one separator, per, one separator and the singular name of \<open>k2\<close>.
\<close>

theorem compound_per_unit_suffix:
  "(out \<in> set (graph_unit2 res inp) \<longleftrightarrow>
      (\<exists>ws k v. inp = ''/'' @ ws @ k \<and> set ws \<subseteq> set white_space_chars
         \<and> (k, v) \<in> set (measurements_tsv res)
         \<and> out = ''per'' @ NEMO_NON_BREAKING_SPACE @ space_to_nbsp v))
   \<and> (out \<in> set (optional_graph_unit2 res inp) \<longleftrightarrow>
      (inp = [] \<and> out = []) \<or>
      (\<exists>ws1 ws2 k v. inp = ws1 @ ''/'' @ ws2 @ k
         \<and> set ws1 \<subseteq> set white_space_chars \<and> set ws2 \<subseteq> set white_space_chars
         \<and> (k, v) \<in> set (measurements_tsv res)
         \<and> out = NEMO_NON_BREAKING_SPACE @ ''per'' @ NEMO_NON_BREAKING_SPACE @ space_to_nbsp v))
   \<and> ((k1, v1) \<in> set (measurements_tsv res) \<and> p \<in> set (SINGULAR_TO_PLURAL res v1)
       \<and> (k2, v2) \<in> set (measurements_tsv res)
       \<and> set ws1 \<subseteq> set white_space_chars \<and> set ws2 \<subseteq> set white_space_chars
      \<longrightarrow> ''units: \"'' @ space_to_nbsp p @ NEMO_NON_BREAKING_SPACE @ ''per''
              @ NEMO_NON_BREAKING_SPACE @ space_to_nbsp v2 @ ''\"''
            \<in> set (unit_plural res (k1 @ ws1 @ ''/'' @ ws2 @ k2))
        \<and> ''units: \"'' @ space_to_nbsp v1 @ NEMO_NON_BREAKING_SPACE @ ''per''
              @ NEMO_NON_BREAKING_SPACE @ space_to_nbsp v2 @ ''\"''
            \<in> set (unit_singular res (k1 @ ws1 @ ''/'' @ ws2 @ k2)))"
proof (intro conjI impI)
  show "out \<in> set (graph_unit2 res inp) \<longleftrightarrow>
      (\<exists>ws k v. inp = ''/'' @ ws @ k \<and> set ws \<subseteq> set white_space_chars
         \<and> (k, v) \<in> set (measurements_tsv res)
         \<and> out = ''per'' @ NEMO_NON_BREAKING_SPACE @ space_to_nbsp v)"
    by (rule in_graph_unit2)
  show "out \<in> set (optional_graph_unit2 res inp) \<longleftrightarrow>
      (inp = [] \<and> out = []) \<or>
      (\<exists>ws1 ws2 k v. inp = ws1 @ ''/'' @ ws2 @ k
         \<and> set ws1 \<subseteq> set white_space_chars \<and> set ws2 \<subseteq> set white_space_chars
         \<and> (k, v) \<in> set (measurements_tsv res)
         \<and> out = NEMO_NON_BREAKING_SPACE @ ''per'' @ NEMO_NON_BREAKING_SPACE @ space_to_nbsp v)"
    by (rule in_optional_graph_unit2_flat)
next
  assume h: "(k1, v1) \<in> set (measurements_tsv res) \<and> p \<in> set (SINGULAR_TO_PLURAL res v1)
       \<and> (k2, v2) \<in> set (measurements_tsv res)
       \<and> set ws1 \<subseteq> set white_space_chars \<and> set ws2 \<subseteq> set white_space_chars"
  then have k1: "(k1, v1) \<in> set (measurements_tsv res)" and p: "p \<in> set (SINGULAR_TO_PLURAL res v1)"
    and k2: "(k2, v2) \<in> set (measurements_tsv res)"
    and ws1: "set ws1 \<subseteq> set white_space_chars" and ws2: "set ws2 \<subseteq> set white_space_chars"
    by simp_all
  note suffix = optional_graph_unit2I [OF ws1 graph_unit2I [OF k2 ws2]]
  from unit_plural_primaryI [OF graph_unit_pluralI [OF k1 p] suffix]
  show "''units: \"'' @ space_to_nbsp p @ NEMO_NON_BREAKING_SPACE @ ''per''
              @ NEMO_NON_BREAKING_SPACE @ space_to_nbsp v2 @ ''\"''
            \<in> set (unit_plural res (k1 @ ws1 @ ''/'' @ ws2 @ k2))"
    by simp
  from unit_singular_primaryI [OF graph_unitI [OF k1] suffix]
  show "''units: \"'' @ space_to_nbsp v1 @ NEMO_NON_BREAKING_SPACE @ ''per''
              @ NEMO_NON_BREAKING_SPACE @ space_to_nbsp v2 @ ''\"''
            \<in> set (unit_singular res (k1 @ ws1 @ ''/'' @ ws2 @ k2))"
    by simp
qed

text \<open>The unit part \<open>miles / hour\<close> with the sample table.\<close>

theorem compound_per_unit_suffix_witness:
  "''units: \"miles'' @ NEMO_NON_BREAKING_SPACE @ ''per'' @ NEMO_NON_BREAKING_SPACE @ ''hour\"''
     \<in> set (unit_plural sample_resources ''miles / hour'')
   \<and> ''units: \"mile'' @ NEMO_NON_BREAKING_SPACE @ ''per'' @ NEMO_NON_BREAKING_SPACE @ ''hour\"''
     \<in> set (unit_singular sample_resources ''miles / hour'')"
  using compound_per_unit_suffix [THEN conjunct2, THEN conjunct2,
          of "''miles''" "''mile''" sample_resources "''miles''" "''hour''" "''hour''" "'' ''" "'' ''"]
  by (simp add: sample_resources_def white_space_chars_def)



lemma in_subgraph_cardinal_flat:
  "out \<in> set (subgraph_cardinal res cg inp) \<longleftrightarrow>
     (\<exists>sg n ws r neg w U. inp = sg @ n @ ws @ r \<and> neg \<in> set (optional_graph_negative sg)
        \<and> set ws \<subseteq> set white_space_chars
        \<and> (n \<noteq> ''1'' \<and> w \<in> set (cg n) \<and> U \<in> set (unit_plural res r)
            \<or> n = ''1'' \<and> w = ''one'' \<and> U \<in> set (unit_singular res r))
        \<and> out = ''cardinal { '' @ neg @ ''integer: \"'' @ w @ ''\" } '' @ U)"
  (is "?L \<longleftrightarrow> ?R")
proof
  assume ?L
  then consider
    (plural) sg n ws r neg w U where "inp = sg @ n @ ws @ r" "neg \<in> set (optional_graph_negative sg)"
      "n \<noteq> ''1''" "w \<in> set (cg n)" "set ws \<subseteq> set white_space_chars" "U \<in> set (unit_plural res r)"
      "out = ''cardinal { '' @ neg @ ''integer: \"'' @ w @ ''\"'' @ '' } '' @ U"
  | (singular) sg ws r neg U where "inp = sg @ ''1'' @ ws @ r" "neg \<in> set (optional_graph_negative sg)"
      "set ws \<subseteq> set white_space_chars" "U \<in> set (unit_singular res r)"
      "out = ''cardinal { '' @ neg @ ''integer: \"'' @ ''one'' @ ''\"'' @ '' } '' @ U"
    unfolding in_subgraph_cardinal in_subgraph_cardinal_plural in_subgraph_cardinal_singular
    by blast
  then show ?R
  proof cases
    case plural
    from plural(7) have "out = ''cardinal { '' @ neg @ ''integer: \"'' @ w @ ''\" } '' @ U" by simp
    with plural show ?thesis by blast
  next
    case singular
    from singular(5) have "out = ''cardinal { '' @ neg @ ''integer: \"'' @ ''one'' @ ''\" } '' @ U"
      by simp
    with singular show ?thesis by blast
  qed
next
  assume ?R
  then obtain sg n ws r neg w U where h: "inp = sg @ n @ ws @ r"
    "neg \<in> set (optional_graph_negative sg)" "set ws \<subseteq> set white_space_chars"
    "n \<noteq> ''1'' \<and> w \<in> set (cg n) \<and> U \<in> set (unit_plural res r)
       \<or> n = ''1'' \<and> w = ''one'' \<and> U \<in> set (unit_singular res r)"
    "out = ''cardinal { '' @ neg @ ''integer: \"'' @ w @ ''\" } '' @ U"
    by blast
  from h(5) have out: "out = ''cardinal { '' @ neg @ ''integer: \"'' @ w @ ''\"'' @ '' } '' @ U"
    by simp
  from h(4) show ?L
  proof
    assume "n \<noteq> ''1'' \<and> w \<in> set (cg n) \<and> U \<in> set (unit_plural res r)"
    then show ?L
      unfolding h(1) out using subgraph_cardinal_pluralI [of neg sg n w cg ws U res r] h(2,3)
      by blast
  next
    assume "n = ''1'' \<and> w = ''one'' \<and> U \<in> set (unit_singular res r)"
    then show ?L
      unfolding h(1) out using subgraph_cardinal_singularI [of neg sg ws U res r cg] h(2,3)
      by blast
  qed
qed

lemma restricted_cardinal_set:
  "set (compose_fst (difference NEMO_SIGMA (accep ''1'')) cg n) = (if n = ''1'' then {} else set (cg n))"
proof (rule set_eqI)
  fix out
  show "out \<in> set (compose_fst (difference NEMO_SIGMA (accep ''1'')) cg n)
          \<longleftrightarrow> out \<in> (if n = ''1'' then {} else set (cg n))"
    unfolding in_restricted_cardinal by simp
qed

subsection \<open>Singular and plural unit forms\<close>

text \<open>
  Claim C1. The plain cardinal branch relates exactly the inputs made of an optional
  sign, a numeric span, any whitespace and a unit part, and it chooses the unit rule by
  the numeric span: a span other than the literal \<open>1\<close> is given to the cardinal grammar
  and the unit part to the plural rule; the literal \<open>1\<close> becomes the word one and the
  unit part goes to the singular rule. Hence, for every unit \<open>k\<close> of the table with name
  \<open>v\<close>: a number \<open>m\<close> other than \<open>1\<close> followed by \<open>k\<close> is tagged with every plural of
  \<open>v\<close>, and \<open>1\<close> followed by \<open>k\<close> with the word one and the name \<open>v\<close> itself. The
  grammar that the plural branch consults is the cardinal grammar with the input \<open>1\<close>
  removed from its domain. The plain decimal branch gives the unit part to the plural
  rule, whatever the decimal, so a decimal followed by \<open>k\<close> is tagged with the plural.
\<close>

theorem unit_form_selection:
  "(out \<in> set (subgraph_cardinal res cg inp) \<longleftrightarrow>
      (\<exists>sg n ws r neg w U. inp = sg @ n @ ws @ r \<and> neg \<in> set (optional_graph_negative sg)
         \<and> set ws \<subseteq> set white_space_chars
         \<and> (n \<noteq> ''1'' \<and> w \<in> set (cg n) \<and> U \<in> set (unit_plural res r)
             \<or> n = ''1'' \<and> w = ''one'' \<and> U \<in> set (unit_singular res r))
         \<and> out = ''cardinal { '' @ neg @ ''integer: \"'' @ w @ ''\" } '' @ U))
   \<and> ((k, v) \<in> set (measurements_tsv res) \<and> m \<noteq> ''1'' \<and> x \<in> set (cg m)
        \<and> p \<in> set (SINGULAR_TO_PLURAL res v)
      \<longrightarrow> ''cardinal { integer: \"'' @ x @ ''\" } units: \"'' @ space_to_nbsp p @ ''\"''
            \<in> set (subgraph_cardinal res cg (m @ k)))
   \<and> ((k, v) \<in> set (measurements_tsv res)
      \<longrightarrow> ''cardinal { integer: \"one\" } units: \"'' @ space_to_nbsp v @ ''\"''
            \<in> set (subgraph_cardinal res cg (''1'' @ k)))
   \<and> set (compose_fst (difference NEMO_SIGMA (accep ''1'')) cg m)
        = (if m = ''1'' then {} else set (cg m))
   \<and> (out \<in> set (subgraph_decimal res decimal inp) \<longleftrightarrow>
      (\<exists>sg n ws r neg d U. inp = sg @ n @ ws @ r \<and> neg \<in> set (optional_graph_negative sg)
         \<and> d \<in> set (final_graph_wo_negative decimal n) \<and> set ws \<subseteq> set white_space_chars
         \<and> U \<in> set (unit_plural res r)
         \<and> out = ''decimal { '' @ neg @ d @ '' } '' @ U))
   \<and> ((k, v) \<in> set (measurements_tsv res) \<and> y \<in> set (final_graph_wo_negative decimal m)
        \<and> p \<in> set (SINGULAR_TO_PLURAL res v)
      \<longrightarrow> ''decimal { '' @ y @ '' } units: \"'' @ space_to_nbsp p @ ''\"''
            \<in> set (subgraph_decimal res decimal (m @ k)))"
proof (intro conjI impI)
  show "out \<in> set (subgraph_cardinal res cg inp) \<longleftrightarrow>
      (\<exists>sg n ws r neg w U. inp = sg @ n @ ws @ r \<and> neg \<in> set (optional_graph_negative sg)
         \<and> set ws \<subseteq> set white_space_chars
         \<and> (n \<noteq> ''1'' \<and> w \<in> set (cg n) \<and> U \<in> set (unit_plural res r)
             \<or> n = ''1'' \<and> w = ''one'' \<and> U \<in> set (unit_singular res r))
         \<and> out = ''cardinal { '' @ neg @ ''integer: \"'' @ w @ ''\" } '' @ U)"
    by (rule in_subgraph_cardinal_flat)
  show "set (compose_fst (difference NEMO_SIGMA (accep ''1'')) cg m)
        = (if m = ''1'' then {} else set (cg m))"
    by (rule restricted_cardinal_set)
  show "out \<in> set (subgraph_decimal res decimal inp) \<longleftrightarrow>
      (\<exists>sg n ws r neg d U. inp = sg @ n @ ws @ r \<and> neg \<in> set (optional_graph_negative sg)
         \<and> d \<in> set (final_graph_wo_negative decimal n) \<and> set ws \<subseteq> set white_space_chars
         \<and> U \<in> set (unit_plural res r)
         \<and> out = ''decimal { '' @ neg @ d @ '' } '' @ U)"
    by (rule in_subgraph_decimal)
next
  assume h: "(k, v) \<in> set (measurements_tsv res) \<and> m \<noteq> ''1'' \<and> x \<in> set (cg m)
        \<and> p \<in> set (SINGULAR_TO_PLURAL res v)"
  then have u: "''units: \"'' @ (space_to_nbsp p @ []) @ ''\"'' \<in> set (unit_plural res (k @ []))"
    by (intro unit_plural_primaryI graph_unit_pluralI [of k v] optional_graph_unit2_emptyI) simp_all
  have "''cardinal { '' @ [] @ ''integer: \"'' @ x @ ''\"'' @ '' } ''
           @ ''units: \"'' @ (space_to_nbsp p @ []) @ ''\"''
          \<in> set (subgraph_cardinal res cg ([] @ m @ [] @ k @ []))"
    using h by (intro subgraph_cardinal_pluralI [of "[]" "[]" m x cg "[]"] no_signI u) simp_all
  then show "''cardinal { integer: \"'' @ x @ ''\" } units: \"'' @ space_to_nbsp p @ ''\"''
            \<in> set (subgraph_cardinal res cg (m @ k))"
    by simp
next
  assume h: "(k, v) \<in> set (measurements_tsv res)"
  then have u: "''units: \"'' @ (space_to_nbsp v @ []) @ ''\"'' \<in> set (unit_singular res (k @ []))"
    by (intro unit_singular_primaryI graph_unitI optional_graph_unit2_emptyI)
  have "''cardinal { '' @ [] @ ''integer: \"'' @ ''one'' @ ''\"'' @ '' } ''
           @ ''units: \"'' @ (space_to_nbsp v @ []) @ ''\"''
          \<in> set (subgraph_cardinal res cg ([] @ ''1'' @ [] @ k @ []))"
    by (intro subgraph_cardinal_singularI [of "[]" "[]" "[]"] no_signI u) simp
  then show "''cardinal { integer: \"one\" } units: \"'' @ space_to_nbsp v @ ''\"''
            \<in> set (subgraph_cardinal res cg (''1'' @ k))"
    by simp
next
  assume h: "(k, v) \<in> set (measurements_tsv res) \<and> y \<in> set (final_graph_wo_negative decimal m)
        \<and> p \<in> set (SINGULAR_TO_PLURAL res v)"
  then have u: "''units: \"'' @ (space_to_nbsp p @ []) @ ''\"'' \<in> set (unit_plural res (k @ []))"
    by (intro unit_plural_primaryI graph_unit_pluralI [of k v] optional_graph_unit2_emptyI) simp_all
  have "''decimal { '' @ [] @ y @ '' } '' @ ''units: \"'' @ (space_to_nbsp p @ []) @ ''\"''
          \<in> set (subgraph_decimal res decimal ([] @ m @ [] @ k @ []))"
    using h by (intro subgraph_decimalI [of "[]" "[]" y decimal m "[]"] no_signI u) simp_all
  then show "''decimal { '' @ y @ '' } units: \"'' @ space_to_nbsp p @ ''\"''
            \<in> set (subgraph_decimal res decimal (m @ k))"
    by simp
qed

text \<open>The docstring's inputs \<open>12kg\<close>, \<open>1kg\<close> and \<open>.5kg\<close> with the sample collaborators.\<close>

theorem unit_form_selection_witness:
  "''cardinal { integer: \"twelve\" } units: \"kilograms\"''
     \<in> set (subgraph_cardinal sample_resources (graph sample_cardinal) ''12kg'')
   \<and> ''cardinal { integer: \"one\" } units: \"kilogram\"''
     \<in> set (subgraph_cardinal sample_resources (graph sample_cardinal) ''1kg'')
   \<and> ''decimal { fractional_part: \"five\" } units: \"kilograms\"''
     \<in> set (subgraph_decimal sample_resources sample_decimal ''.5kg'')"
proof -
  have kg: "(''kg'', ''kilogram'') \<in> set (measurements_tsv sample_resources)"
    and pl: "''kilograms'' \<in> set (SINGULAR_TO_PLURAL sample_resources ''kilogram'')"
    by (simp_all add: sample_resources_def)
  have twelve: "''twelve'' \<in> set (graph sample_cardinal ''12'')"
    by (simp add: sample_cardinal_def string_file_def)
  have half: "''fractional_part: \"five\"'' \<in> set (final_graph_wo_negative sample_decimal ''.5'')"
    by (simp add: sample_decimal_def string_file_def)
  from unit_form_selection [THEN conjunct2, THEN conjunct1, THEN mp,
      of "''kg''" "''kilogram''" sample_resources "''12''" "''twelve''" "graph sample_cardinal"
         "''kilograms''"]
    kg pl twelve
  have "''cardinal { integer: \"twelve\" } units: \"kilograms\"''
     \<in> set (subgraph_cardinal sample_resources (graph sample_cardinal) ''12kg'')"
    by simp
  moreover from unit_form_selection [THEN conjunct2, THEN conjunct2, THEN conjunct1, THEN mp,
      of "''kg''" "''kilogram''" sample_resources "graph sample_cardinal"] kg
  have "''cardinal { integer: \"one\" } units: \"kilogram\"''
     \<in> set (subgraph_cardinal sample_resources (graph sample_cardinal) ''1kg'')"
    by simp
  moreover from unit_form_selection [THEN conjunct2, THEN conjunct2, THEN conjunct2, THEN conjunct2,
      THEN conjunct2, THEN mp,
      of "''kg''" "''kilogram''" sample_resources "''fractional_part: \"five\"''" sample_decimal
         "''.5''" "''kilograms''"]
    kg pl half
  have "''decimal { fractional_part: \"five\" } units: \"kilograms\"''
     \<in> set (subgraph_decimal sample_resources sample_decimal ''.5kg'')"
    by simp
  ultimately show ?thesis by blast
qed



lemma sign_read_off:
  assumes "neg \<in> set (optional_graph_negative sg)" and "n \<noteq> []" and "hd n \<noteq> CHR ''-''"
  shows "neg = (if take 1 (sg @ n @ rest) = ''-'' then ''negative: \"true\" '' else [])"
proof -
  from assms(2) obtain c cs where n: "n = c # cs" by (cases n) auto
  with assms(3) have "c \<noteq> CHR ''-''" by simp
  with assms(1) n show ?thesis
    unfolding in_optional_graph_negative by auto
qed

lemma no_double_sign:
  assumes "neg \<in> set (optional_graph_negative sg)" and "n \<noteq> []" and "hd n \<noteq> CHR ''-''"
  shows "sg @ n @ rest \<noteq> ''--'' @ t"
proof -
  from assms(2) obtain c cs where n: "n = c # cs" by (cases n) auto
  with assms(3) have "c \<noteq> CHR ''-''" by simp
  with assms(1) n show ?thesis
    unfolding in_optional_graph_negative by auto
qed

lemma subgraph_cardinal_numeric:
  assumes "out \<in> set (subgraph_cardinal res cg inp)"
    and "\<And>s. cg s \<noteq> [] \<Longrightarrow> s \<noteq> [] \<and> hd s \<noteq> CHR ''-''"
  obtains sg n ws r neg w U where "inp = sg @ n @ ws @ r"
    and "neg \<in> set (optional_graph_negative sg)" and "n \<noteq> []" and "hd n \<noteq> CHR ''-''"
    and "w = ''one'' \<or> w \<in> set (cg n)"
    and "U \<in> set (unit_plural res r) \<or> U \<in> set (unit_singular res r)"
    and "out = ''cardinal { '' @ neg @ ''integer: \"'' @ w @ ''\" } '' @ U"
proof -
  from assms(1) obtain sg n ws r neg w U where h: "inp = sg @ n @ ws @ r"
    "neg \<in> set (optional_graph_negative sg)"
    "n \<noteq> ''1'' \<and> w \<in> set (cg n) \<and> U \<in> set (unit_plural res r)
       \<or> n = ''1'' \<and> w = ''one'' \<and> U \<in> set (unit_singular res r)"
    "out = ''cardinal { '' @ neg @ ''integer: \"'' @ w @ ''\" } '' @ U"
    unfolding in_subgraph_cardinal_flat by blast
  from h(3) have "n \<noteq> [] \<and> hd n \<noteq> CHR ''-''"
  proof
    assume "n \<noteq> ''1'' \<and> w \<in> set (cg n) \<and> U \<in> set (unit_plural res r)"
    then have "cg n \<noteq> []" by auto
    then show ?thesis by (rule assms(2))
  next
    assume "n = ''1'' \<and> w = ''one'' \<and> U \<in> set (unit_singular res r)"
    then show ?thesis by simp
  qed
  moreover from h(3) have "w = ''one'' \<or> w \<in> set (cg n)" by blast
  moreover from h(3) have "U \<in> set (unit_plural res r) \<or> U \<in> set (unit_singular res r)" by blast
  ultimately show thesis using h(1,2,4) that by blast
qed

subsection \<open>The sign\<close>

text \<open>
  Claim C3. The optional sign matches the empty input, emitting nothing, or the single
  character \<open>-\<close>, emitting \<open>negative: "true"\<close>; it matches nothing else, so it never
  emits any other value and never consumes a second marker. The numeric grammars take
  unsigned surface text: they accept neither the empty string nor a string that begins
  with \<open>-\<close>. Then every output of the plain cardinal branch and of the plain decimal
  branch carries the field \<open>negative: "true"\<close>, right after the opening of its block, when
  the input begins with \<open>-\<close>, and carries no negative field at all otherwise; and an
  input that begins with two markers is matched by neither branch.
\<close>

theorem negative_field:
  assumes "\<forall>s. cg s \<noteq> [] \<longrightarrow> s \<noteq> [] \<and> hd s \<noteq> CHR ''-''"
    and "\<forall>s. final_graph_wo_negative decimal s \<noteq> [] \<longrightarrow> s \<noteq> [] \<and> hd s \<noteq> CHR ''-''"
  shows "set (optional_graph_negative s)
           = (if s = [] then {[]} else if s = ''-'' then {''negative: \"true\" ''} else {})
       \<and> (out \<in> set (subgraph_cardinal res cg inp) \<longrightarrow>
            (\<exists>n r w U. (w = ''one'' \<or> w \<in> set (cg n))
               \<and> (U \<in> set (unit_plural res r) \<or> U \<in> set (unit_singular res r))
               \<and> out = ''cardinal { ''
                    @ (if take 1 inp = ''-'' then ''negative: \"true\" '' else [])
                    @ ''integer: \"'' @ w @ ''\" } '' @ U))
       \<and> (out \<in> set (subgraph_decimal res decimal inp) \<longrightarrow>
            (\<exists>n r d U. d \<in> set (final_graph_wo_negative decimal n) \<and> U \<in> set (unit_plural res r)
               \<and> out = ''decimal { ''
                    @ (if take 1 inp = ''-'' then ''negative: \"true\" '' else [])
                    @ d @ '' } '' @ U))
       \<and> subgraph_cardinal res cg (''--'' @ t) = []
       \<and> subgraph_decimal res decimal (''--'' @ t) = []"
proof -
  from assms(1) have cu: "\<And>s. cg s \<noteq> [] \<Longrightarrow> s \<noteq> [] \<and> hd s \<noteq> CHR ''-''" by blast
  from assms(2)
  have du: "\<And>s. final_graph_wo_negative decimal s \<noteq> [] \<Longrightarrow> s \<noteq> [] \<and> hd s \<noteq> CHR ''-''"
    by blast
  show ?thesis
  proof (intro conjI impI)
  show "set (optional_graph_negative s)
           = (if s = [] then {[]} else if s = ''-'' then {''negative: \"true\" ''} else {})"
    by (rule set_eqI) (auto simp: in_optional_graph_negative)
next
  assume "out \<in> set (subgraph_cardinal res cg inp)"
  then obtain sg n ws r neg w U where h: "inp = sg @ n @ ws @ r"
    "neg \<in> set (optional_graph_negative sg)" "n \<noteq> []" "hd n \<noteq> CHR ''-''"
    "w = ''one'' \<or> w \<in> set (cg n)"
    "U \<in> set (unit_plural res r) \<or> U \<in> set (unit_singular res r)"
    "out = ''cardinal { '' @ neg @ ''integer: \"'' @ w @ ''\" } '' @ U"
    using cu by (rule subgraph_cardinal_numeric)
  from sign_read_off [OF h(2,3,4), of "ws @ r"] h(1)
  have "neg = (if take 1 inp = ''-'' then ''negative: \"true\" '' else [])" by simp
  with h(5,6,7) show "\<exists>n r w U. (w = ''one'' \<or> w \<in> set (cg n))
               \<and> (U \<in> set (unit_plural res r) \<or> U \<in> set (unit_singular res r))
               \<and> out = ''cardinal { ''
                    @ (if take 1 inp = ''-'' then ''negative: \"true\" '' else [])
                    @ ''integer: \"'' @ w @ ''\" } '' @ U"
    by blast
next
  assume "out \<in> set (subgraph_decimal res decimal inp)"
  then obtain sg n ws r neg d U where h: "inp = sg @ n @ ws @ r"
    "neg \<in> set (optional_graph_negative sg)" "d \<in> set (final_graph_wo_negative decimal n)"
    "U \<in> set (unit_plural res r)" "out = ''decimal { '' @ neg @ d @ '' } '' @ U"
    unfolding in_subgraph_decimal by blast
  from h(3) have "final_graph_wo_negative decimal n \<noteq> []" by auto
  then have n: "n \<noteq> []" "hd n \<noteq> CHR ''-''" using du by blast+
  from sign_read_off [OF h(2) n, of "ws @ r"] h(1)
  have "neg = (if take 1 inp = ''-'' then ''negative: \"true\" '' else [])" by simp
  with h(3,4,5) show "\<exists>n r d U. d \<in> set (final_graph_wo_negative decimal n)
               \<and> U \<in> set (unit_plural res r)
               \<and> out = ''decimal { ''
                    @ (if take 1 inp = ''-'' then ''negative: \"true\" '' else [])
                    @ d @ '' } '' @ U"
    by blast
next
  have "x \<notin> set (subgraph_cardinal res cg (''--'' @ t))" for x
  proof
    assume "x \<in> set (subgraph_cardinal res cg (''--'' @ t))"
    then obtain sg n ws r neg where h: "''--'' @ t = sg @ n @ ws @ r"
      "neg \<in> set (optional_graph_negative sg)" "n \<noteq> []" "hd n \<noteq> CHR ''-''"
      using cu by (rule subgraph_cardinal_numeric)
    from no_double_sign [OF h(2,3,4), of "ws @ r" t] h(1) show False by simp
  qed
  then show "subgraph_cardinal res cg (''--'' @ t) = []"
    by (cases "subgraph_cardinal res cg (''--'' @ t)") auto
next
  have "x \<notin> set (subgraph_decimal res decimal (''--'' @ t))" for x
  proof
    assume "x \<in> set (subgraph_decimal res decimal (''--'' @ t))"
    then obtain sg n ws r neg d where h: "''--'' @ t = sg @ n @ ws @ r"
      "neg \<in> set (optional_graph_negative sg)" "d \<in> set (final_graph_wo_negative decimal n)"
      unfolding in_subgraph_decimal by blast
    from h(3) have "final_graph_wo_negative decimal n \<noteq> []" by auto
    then have n: "n \<noteq> []" "hd n \<noteq> CHR ''-''" using du by blast+
    from no_double_sign [OF h(2) n, of "ws @ r" t] h(1) show False by simp
  qed
  then show "subgraph_decimal res decimal (''--'' @ t) = []"
    by (cases "subgraph_decimal res decimal (''--'' @ t)") auto
  qed
qed

text \<open>The inputs \<open>-12kg\<close>, \<open>--12kg\<close> and \<open>--.5kg\<close> with the sample collaborators.\<close>

theorem negative_field_witness:
  "set (optional_graph_negative ''-'') = {''negative: \"true\" ''}
   \<and> (\<exists>n r w U. (w = ''one'' \<or> w \<in> set (graph sample_cardinal n))
         \<and> (U \<in> set (unit_plural sample_resources r) \<or> U \<in> set (unit_singular sample_resources r))
         \<and> ''cardinal { negative: \"true\" integer: \"twelve\" } units: \"kilograms\"''
              = ''cardinal { negative: \"true\" integer: \"'' @ w @ ''\" } '' @ U)
   \<and> subgraph_cardinal sample_resources (graph sample_cardinal) ''--12kg'' = []
   \<and> subgraph_decimal sample_resources sample_decimal ''--.5kg'' = []"
proof -
  have c: "\<forall>s. graph sample_cardinal s \<noteq> [] \<longrightarrow> s \<noteq> [] \<and> hd s \<noteq> CHR ''-''"
    by (auto simp: sample_cardinal_def string_file_def split: if_splits)
  have d: "\<forall>s. final_graph_wo_negative sample_decimal s \<noteq> [] \<longrightarrow> s \<noteq> [] \<and> hd s \<noteq> CHR ''-''"
    by (auto simp: sample_decimal_def string_file_def split: if_splits)
  note t = negative_field [of "graph sample_cardinal" sample_decimal, OF c d]
  have kg: "''kilograms'' \<in> set (graph_unit_plural sample_resources ''kg'')"
    using graph_unit_pluralI [of "''kg''" "''kilogram''" sample_resources "''kilograms''"]
    by (simp add: sample_resources_def)
  have "''cardinal { '' @ ''negative: \"true\" '' @ ''integer: \"'' @ ''twelve'' @ ''\"'' @ '' } ''
           @ ''units: \"'' @ (''kilograms'' @ []) @ ''\"''
          \<in> set (subgraph_cardinal sample_resources (graph sample_cardinal)
                 (''-'' @ ''12'' @ [] @ ''kg'' @ []))"
    by (intro subgraph_cardinal_pluralI [of _ "''-''" "''12''" "''twelve''" "graph sample_cardinal" "[]"]
          signI unit_plural_primaryI kg optional_graph_unit2_emptyI)
       (simp_all add: sample_cardinal_def string_file_def)
  then have m: "''cardinal { negative: \"true\" integer: \"twelve\" } units: \"kilograms\"''
          \<in> set (subgraph_cardinal sample_resources (graph sample_cardinal) ''-12kg'')"
    by simp
  from t [THEN conjunct2, THEN conjunct1, THEN mp, OF m]
  have "\<exists>n r w U. (w = ''one'' \<or> w \<in> set (graph sample_cardinal n))
         \<and> (U \<in> set (unit_plural sample_resources r) \<or> U \<in> set (unit_singular sample_resources r))
         \<and> ''cardinal { negative: \"true\" integer: \"twelve\" } units: \"kilograms\"''
              = ''cardinal { negative: \"true\" integer: \"'' @ w @ ''\" } '' @ U"
    by simp
  moreover from t [THEN conjunct1, of "''-''"]
  have "set (optional_graph_negative ''-'') = {''negative: \"true\" ''}" by simp
  moreover from t [THEN conjunct2, THEN conjunct2, THEN conjunct2, THEN conjunct1,
      of sample_resources "''12kg''"]
  have "subgraph_cardinal sample_resources (graph sample_cardinal) ''--12kg'' = []"
    by simp
  moreover from t [THEN conjunct2, THEN conjunct2, THEN conjunct2, THEN conjunct2,
      of sample_resources "''.5kg''"]
  have "subgraph_decimal sample_resources sample_decimal ''--.5kg'' = []"
    by simp
  ultimately show ?thesis by blast
qed



lemma space_to_nbsp_eq_Nil: "space_to_nbsp s = [] \<longleftrightarrow> s = []"
  by (cases s) (auto simp: NEMO_NON_BREAKING_SPACE_def)

lemma unit_plural_nonempty:
  assumes "\<forall>k v. (k, v) \<in> set (measurements_tsv res) \<longrightarrow> v \<noteq> [] \<and> [] \<notin> set (SINGULAR_TO_PLURAL res v)"
    and "U \<in> set (unit_plural res r)"
  obtains u where "U = ''units: \"'' @ u @ ''\"''" and "u \<noteq> []"
proof -
  from assms(2) obtain u where U: "U = ''units: \"'' @ u @ ''\"''"
    and u: "(\<exists>k r' p s. r = k @ r' \<and> u = p @ s \<and> p \<in> set (graph_unit_plural res k)
             \<and> s \<in> set (optional_graph_unit2 res r'))
         \<or> u \<in> set (graph_unit2 res r)"
    unfolding in_unit_plural by blast
  from u have "u \<noteq> []"
  proof
    assume "\<exists>k r' p s. r = k @ r' \<and> u = p @ s \<and> p \<in> set (graph_unit_plural res k)
             \<and> s \<in> set (optional_graph_unit2 res r')"
    then obtain k p s where "u = p @ s" "p \<in> set (graph_unit_plural res k)" by blast
    then obtain v q where "(k, v) \<in> set (measurements_tsv res)" "q \<in> set (SINGULAR_TO_PLURAL res v)"
      "p = space_to_nbsp q" unfolding in_graph_unit_plural by blast
    with assms(1) have "q \<noteq> []" by metis
    with \<open>p = space_to_nbsp q\<close> \<open>u = p @ s\<close> show ?thesis by (simp add: space_to_nbsp_eq_Nil)
  next
    assume "u \<in> set (graph_unit2 res r)"
    then show ?thesis unfolding in_graph_unit2 by auto
  qed
  with U that show thesis by blast
qed

lemma unit_singular_nonempty:
  assumes "\<forall>k v. (k, v) \<in> set (measurements_tsv res) \<longrightarrow> v \<noteq> [] \<and> [] \<notin> set (SINGULAR_TO_PLURAL res v)"
    and "U \<in> set (unit_singular res r)"
  obtains u where "U = ''units: \"'' @ u @ ''\"''" and "u \<noteq> []"
proof -
  from assms(2) obtain u where U: "U = ''units: \"'' @ u @ ''\"''"
    and u: "(\<exists>k r' p s. r = k @ r' \<and> u = p @ s \<and> p \<in> set (graph_unit res k)
             \<and> s \<in> set (optional_graph_unit2 res r'))
         \<or> u \<in> set (graph_unit2 res r)"
    unfolding in_unit_singular by blast
  from u have "u \<noteq> []"
  proof
    assume "\<exists>k r' p s. r = k @ r' \<and> u = p @ s \<and> p \<in> set (graph_unit res k)
             \<and> s \<in> set (optional_graph_unit2 res r')"
    then obtain k p s where "u = p @ s" "p \<in> set (graph_unit res k)" by blast
    then obtain v where "(k, v) \<in> set (measurements_tsv res)" "p = space_to_nbsp v"
      unfolding in_graph_unit by blast
    with assms(1) have "v \<noteq> []" by metis
    with \<open>p = space_to_nbsp v\<close> \<open>u = p @ s\<close> show ?thesis by (simp add: space_to_nbsp_eq_Nil)
  next
    assume "u \<in> set (graph_unit2 res r)"
    then show ?thesis unfolding in_graph_unit2 by auto
  qed
  with U that show thesis by blast
qed

lemma final_graph_units:
  assumes ok: "\<forall>k v. (k, v) \<in> set (measurements_tsv res) \<longrightarrow> v \<noteq> [] \<and> [] \<notin> set (SINGULAR_TO_PLURAL res v)"
    and y: "y \<in> set (final_graph res cg decimal inp)"
  shows "\<exists>pre u post. y = pre @ ''units: \"'' @ u @ ''\"'' @ post \<and> u \<noteq> []
           \<and> ((\<exists>s. ''units: \"'' @ u @ ''\"'' \<in> set (unit_plural res s))
              \<or> (\<exists>s. ''units: \"'' @ u @ ''\"'' \<in> set (unit_singular res s))
              \<or> u \<in> set (closure_plus NEMO_ALPHA u))"
  (is "\<exists>pre u post. ?P pre u post")
proof -
  from y consider
    (dec) "y \<in> set (subgraph_decimal res decimal inp)"
  | (card) "y \<in> set (subgraph_cardinal res cg inp)"
  | (cda) "y \<in> set (cardinal_dash_alpha cg inp)"
  | (adc) "y \<in> set (alpha_dash_cardinal cg inp)"
  | (dda) "y \<in> set (decimal_dash_alpha decimal inp)"
  | (add) "y \<in> set (alpha_dash_decimal decimal inp)"
    unfolding in_final_graph by blast
  then show ?thesis
  proof cases
    case dec
    then obtain neg d U r where h: "U \<in> set (unit_plural res r)" "y = ''decimal { '' @ neg @ d @ '' } '' @ U"
      unfolding in_subgraph_decimal by blast
    from ok h(1) obtain u where u: "U = ''units: \"'' @ u @ ''\"''" "u \<noteq> []"
      by (rule unit_plural_nonempty)
    with h have "?P (''decimal { '' @ neg @ d @ '' } '') u []" by auto
    then show ?thesis by blast
  next
    case card
    then obtain neg w U r where h: "U \<in> set (unit_plural res r) \<or> U \<in> set (unit_singular res r)"
      "y = ''cardinal { '' @ neg @ ''integer: \"'' @ w @ ''\" } '' @ U"
      unfolding in_subgraph_cardinal_flat by blast
    from h(1) obtain u where u: "U = ''units: \"'' @ u @ ''\"''" "u \<noteq> []"
      using unit_plural_nonempty [OF ok] unit_singular_nonempty [OF ok] by metis
    with h have "?P (''cardinal { '' @ neg @ ''integer: \"'' @ w @ ''\" } '') u []" by auto
    then show ?thesis by blast
  next
    case cda
    then obtain w a where h: "a \<in> set (closure_plus NEMO_ALPHA a)"
      "y = ''cardinal { integer: \"'' @ w @ ''\" } units: \"'' @ a @ ''\"''"
      unfolding in_cardinal_dash_alpha by blast
    from h(1) have "a \<noteq> []" unfolding in_alpha_plus by simp
    with h have "?P (''cardinal { integer: \"'' @ w @ ''\" } '') a []" by simp
    then show ?thesis by blast
  next
    case adc
    then obtain w a where h: "a \<in> set (closure_plus NEMO_ALPHA a)"
      "y = ''units: \"'' @ a @ ''\"'' @ '' cardinal { integer: \"'' @ w @ ''\" } preserve_order: true''"
      unfolding in_alpha_dash_cardinal by blast
    from h(1) have "a \<noteq> []" unfolding in_alpha_plus by simp
    with h have "?P [] a ('' cardinal { integer: \"'' @ w @ ''\" } preserve_order: true'')" by simp
    then show ?thesis by blast
  next
    case dda
    then obtain d a where h: "a \<in> set (closure_plus NEMO_ALPHA a)"
      "y = ''decimal { '' @ d @ '' } units: \"'' @ a @ ''\"''"
      unfolding in_decimal_dash_alpha by blast
    from h(1) have "a \<noteq> []" unfolding in_alpha_plus by simp
    with h have "?P (''decimal { '' @ d @ '' } '') a []" by simp
    then show ?thesis by blast
  next
    case add
    then obtain d a where h: "a \<in> set (closure_plus NEMO_ALPHA a)"
      "y = ''units: \"'' @ a @ ''\"'' @ '' decimal { '' @ d @ '' } preserve_order: true''"
      unfolding in_alpha_dash_decimal by blast
    from h(1) have "a \<noteq> []" unfolding in_alpha_plus by simp
    with h have "?P [] a ('' decimal { '' @ d @ '' } preserve_order: true'')" by simp
    then show ?thesis by blast
  qed
qed

lemma sample_resources_ok:
  "\<forall>k v. (k, v) \<in> set (measurements_tsv sample_resources)
     \<longrightarrow> v \<noteq> [] \<and> [] \<notin> set (SINGULAR_TO_PLURAL sample_resources v)"
  by (auto simp: sample_resources_def)

lemma sample_minus_12kg:
  "''measure { cardinal { negative: \"true\" integer: \"twelve\" } units: \"kilograms\" }''
     \<in> set (MeasureFst sample_resources sample_cardinal sample_decimal True ''-12kg'')"
proof -
  have kg: "''kilograms'' \<in> set (graph_unit_plural sample_resources ''kg'')"
    using graph_unit_pluralI [of "''kg''" "''kilogram''" sample_resources "''kilograms''"]
    by (simp add: sample_resources_def)
  have "''cardinal { '' @ ''negative: \"true\" '' @ ''integer: \"'' @ ''twelve'' @ ''\"'' @ '' } ''
           @ ''units: \"'' @ (''kilograms'' @ []) @ ''\"''
          \<in> set (subgraph_cardinal sample_resources (cardinal_graph sample_cardinal True)
                 (''-'' @ ''12'' @ [] @ ''kg'' @ []))"
    by (intro subgraph_cardinal_pluralI [of _ "''-''" "''12''" "''twelve''" _ "[]"]
          signI unit_plural_primaryI kg optional_graph_unit2_emptyI)
       (simp_all add: cardinal_graph_def sample_cardinal_def string_file_def)
  then have "''cardinal { negative: \"true\" integer: \"twelve\" } units: \"kilograms\"''
          \<in> set (final_graph sample_resources (cardinal_graph sample_cardinal True) sample_decimal
                 ''-12kg'')"
    unfolding in_final_graph by simp
  from MeasureFstI [OF this] show ?thesis by simp
qed

subsection \<open>The units field is never empty\<close>

text \<open>
  Claim C7. The unit table and the pluraliser are resources of the tagger; no unit of the
  table has an empty name, and no plural of such a name is empty. Then every output of
  the tagger, whichever branch produced it, has a units field whose content is not
  empty: the content is what the plural or the singular unit rule emitted for some unit
  part, or the alphabetic span of a dash-joined shape.
\<close>

theorem units_never_empty:
  assumes "\<forall>k v. (k, v) \<in> set (measurements_tsv res)
             \<longrightarrow> v \<noteq> [] \<and> [] \<notin> set (SINGULAR_TO_PLURAL res v)"
    and "out \<in> set (MeasureFst res cardinal decimal deterministic inp)"
  shows "\<exists>pre u post. out = ''measure { '' @ pre @ ''units: \"'' @ u @ ''\"'' @ post @ '' }''
           \<and> u \<noteq> []
           \<and> ((\<exists>s. ''units: \"'' @ u @ ''\"'' \<in> set (unit_plural res s))
              \<or> (\<exists>s. ''units: \"'' @ u @ ''\"'' \<in> set (unit_singular res s))
              \<or> u \<in> set (closure_plus NEMO_ALPHA u))"
proof -
  from assms(2) obtain y where y: "out = ''measure { '' @ y @ '' }''"
    "y \<in> set (final_graph res (cardinal_graph cardinal deterministic) decimal inp)"
    unfolding in_MeasureFst by blast
  from final_graph_units [OF assms(1) y(2)] obtain pre u post
    where "y = pre @ ''units: \"'' @ u @ ''\"'' @ post" "u \<noteq> []"
      "(\<exists>s. ''units: \"'' @ u @ ''\"'' \<in> set (unit_plural res s))
              \<or> (\<exists>s. ''units: \"'' @ u @ ''\"'' \<in> set (unit_singular res s))
              \<or> u \<in> set (closure_plus NEMO_ALPHA u)"
    by blast
  with y(1) show ?thesis by auto
qed

text \<open>The docstring's input \<open>-12kg\<close> with the sample collaborators.\<close>

theorem units_never_empty_witness:
  "\<exists>pre u post.
     ''measure { cardinal { negative: \"true\" integer: \"twelve\" } units: \"kilograms\" }''
        = ''measure { '' @ pre @ ''units: \"'' @ u @ ''\"'' @ post @ '' }''
     \<and> u \<noteq> []
     \<and> ((\<exists>s. ''units: \"'' @ u @ ''\"'' \<in> set (unit_plural sample_resources s))
        \<or> (\<exists>s. ''units: \"'' @ u @ ''\"'' \<in> set (unit_singular sample_resources s))
        \<or> u \<in> set (closure_plus NEMO_ALPHA u))"
  by (rule units_never_empty [OF sample_resources_ok sample_minus_12kg])



lemma final_graph_head:
  assumes "y \<in> set (final_graph res cg decimal inp)"
  shows "\<exists>rest. y = ''decimal { '' @ rest \<or> y = ''cardinal { '' @ rest \<or> y = ''units: \"'' @ rest"
proof -
  from assms consider
    (dec) "y \<in> set (subgraph_decimal res decimal inp)"
  | (card) "y \<in> set (subgraph_cardinal res cg inp)"
  | (cda) "y \<in> set (cardinal_dash_alpha cg inp)"
  | (adc) "y \<in> set (alpha_dash_cardinal cg inp)"
  | (dda) "y \<in> set (decimal_dash_alpha decimal inp)"
  | (add) "y \<in> set (alpha_dash_decimal decimal inp)"
    unfolding in_final_graph by blast
  then show ?thesis
  proof cases
    case dec
    then show ?thesis unfolding in_subgraph_decimal by blast
  next
    case card
    then show ?thesis unfolding in_subgraph_cardinal_flat by blast
  next
    case cda
    then obtain w a where "y = ''cardinal { integer: \"'' @ w @ ''\" } units: \"'' @ a @ ''\"''"
      unfolding in_cardinal_dash_alpha by blast
    then have "y = ''cardinal { '' @ (''integer: \"'' @ w @ ''\" } units: \"'' @ a @ ''\"'')" by simp
    then show ?thesis by blast
  next
    case adc
    then show ?thesis unfolding in_alpha_dash_cardinal by blast
  next
    case dda
    then show ?thesis unfolding in_decimal_dash_alpha by blast
  next
    case add
    then show ?thesis unfolding in_alpha_dash_decimal by blast
  qed
qed

subsection \<open>Where the negative field is written\<close>

text \<open>
  Claim C2. The docstring of the class gives, for \<open>-12kg\<close>, the annotation
  \<^verbatim>\<open>measure { negative: "true" cardinal { integer: "twelve" } units: "kilograms" }\<close>,
  with the negative field before the cardinal block. The constructor inserts
  \<open>cardinal {\<close> first and the optional sign after it, so the tagger, run on \<open>-12kg\<close> with
  a cardinal grammar that reads 12 as twelve and a unit table that has kg, gives exactly
  one annotation, with the negative field inside the cardinal block. More generally
  every output begins, after the envelope, with the opening of a block or with the units
  field, so the annotation of the docstring is not an output of the tagger for any
  collaborators, mode or input.
\<close>

theorem negative_field_position:
  "MeasureFst sample_resources sample_cardinal sample_decimal True ''-12kg''
     = [''measure { cardinal { negative: \"true\" integer: \"twelve\" } units: \"kilograms\" }'']
   \<and> ''measure { negative: \"true\" cardinal { integer: \"twelve\" } units: \"kilograms\" }''
       \<notin> set (MeasureFst res cardinal decimal deterministic inp)"
proof
  show "MeasureFst sample_resources sample_cardinal sample_decimal True ''-12kg''
     = [''measure { cardinal { negative: \"true\" integer: \"twelve\" } units: \"kilograms\" }'']"
    by code_simp
  show "''measure { negative: \"true\" cardinal { integer: \"twelve\" } units: \"kilograms\" }''
       \<notin> set (MeasureFst res cardinal decimal deterministic inp)"
  proof
    assume "''measure { negative: \"true\" cardinal { integer: \"twelve\" } units: \"kilograms\" }''
       \<in> set (MeasureFst res cardinal decimal deterministic inp)"
    then obtain y where y: "''measure { negative: \"true\" cardinal { integer: \"twelve\" } units: \"kilograms\" }''
        = ''measure { '' @ y @ '' }''"
      "y \<in> set (final_graph res (cardinal_graph cardinal deterministic) decimal inp)"
      unfolding in_MeasureFst by blast
    from final_graph_head [OF y(2)] y(1) show False by auto
  qed
qed



lemma span_unique:
  assumes "set a \<subseteq> A" and "set b \<subseteq> A" and "x \<noteq> []" and "hd x \<notin> A"
    and "y \<noteq> []" and "hd y \<notin> A" and "a @ x = b @ y"
  shows "a = b \<and> x = y"
proof -
  have stop: "takeWhile (\<lambda>c. c \<in> A) (p @ q) = p" if "set p \<subseteq> A" "q \<noteq> []" "hd q \<notin> A" for p q
  proof -
    from that(2,3) have "takeWhile (\<lambda>c. c \<in> A) q = []" by (cases q) auto
    moreover from that(1) have "takeWhile (\<lambda>c. c \<in> A) (p @ q) = p @ takeWhile (\<lambda>c. c \<in> A) q"
      by (intro takeWhile_append2) auto
    ultimately show ?thesis by simp
  qed
  from stop [OF assms(1,3,4)] stop [OF assms(2,5,6)] assms(7) have "a = b" by simp
  with assms(7) show ?thesis by simp
qed

lemma plain_parse_unique:
  assumes N: "N \<inter> set white_space_chars = {}" "CHR ''-'' \<notin> N"
    and sg0: "sg0 = [] \<or> sg0 = ''-''" and n: "n \<noteq> []" "set n \<subseteq> N"
    and ws: "set ws \<subseteq> set white_space_chars"
    and r0: "r0 \<noteq> []" "hd r0 \<notin> N" "hd r0 \<notin> set white_space_chars"
    and sg: "sg = [] \<or> sg = ''-''" and n': "n' \<noteq> []" "set n' \<subseteq> N"
    and ws': "set ws' \<subseteq> set white_space_chars"
    and r: "r \<noteq> []" "hd r \<notin> N" "hd r \<notin> set white_space_chars"
    and eq: "sg0 @ n @ ws @ r0 = sg @ n' @ ws' @ r"
  shows "sg = sg0 \<and> n' = n \<and> ws' = ws \<and> r = r0"
proof -
  from n N(2) obtain c cs where c: "n = c # cs" "c \<noteq> CHR ''-''" by (cases n) auto
  from n' N(2) obtain c' cs' where c': "n' = c' # cs'" "c' \<noteq> CHR ''-''" by (cases n') auto
  from sg0 sg eq c c' have s: "sg = sg0" by auto
  with eq have eq1: "n @ (ws @ r0) = n' @ (ws' @ r)" by simp
  have after: "p @ q \<noteq> [] \<and> hd (p @ q) \<notin> N"
    if "set p \<subseteq> set white_space_chars" "q \<noteq> []" "hd q \<notin> N" for p q
    using that N(1) by (cases p) auto
  from span_unique [OF n(2) n'(2) _ _ _ _ eq1] after [OF ws r0(1,2)] after [OF ws' r(1,2)]
  have "n = n'" "ws @ r0 = ws' @ r" by blast+
  moreover from span_unique [OF ws ws' r0(1,3) r(1,3) \<open>ws @ r0 = ws' @ r\<close>]
  have "ws = ws'" "r0 = r" by blast+
  ultimately show ?thesis using s by simp
qed

lemma unit_part_head:
  assumes keys: "\<forall>k v. (k, v) \<in> set (measurements_tsv res)
            \<longrightarrow> k \<noteq> [] \<and> hd k \<notin> N \<and> hd k \<notin> set white_space_chars"
    and slash: "CHR ''/'' \<notin> N"
    and U: "U \<in> set (unit_plural res r) \<or> U \<in> set (unit_singular res r)"
  shows "r \<noteq> [] \<and> hd r \<notin> N \<and> hd r \<notin> set white_space_chars"
proof -
  from U consider
    (key) k r' where "r = k @ r'" "\<exists>v. (k, v) \<in> set (measurements_tsv res)"
  | (per) u where "u \<in> set (graph_unit2 res r)"
    unfolding in_unit_plural in_unit_singular in_graph_unit_plural in_graph_unit by blast
  then show ?thesis
  proof cases
    case key
    with keys have "k \<noteq> []" "hd k \<notin> N" "hd k \<notin> set white_space_chars" by blast+
    with key(1) show ?thesis by simp
  next
    case per
    then obtain t where "r = ''/'' @ t" unfolding in_graph_unit2 by blast
    with slash show ?thesis by (simp add: white_space_chars_def)
  qed
qed

lemma plain_cardinal_tokens:
  assumes N: "N \<inter> set white_space_chars = {}" "CHR ''-'' \<notin> N" "CHR ''/'' \<notin> N" "CHR ''1'' \<in> N"
    and num: "\<forall>s. cg s \<noteq> [] \<longrightarrow> s \<noteq> [] \<and> set s \<subseteq> N"
    and keys: "\<forall>k v. (k, v) \<in> set (measurements_tsv res)
            \<longrightarrow> k \<noteq> [] \<and> hd k \<notin> N \<and> hd k \<notin> set white_space_chars"
    and sg0: "sg0 = [] \<or> sg0 = ''-''" and n: "n \<noteq> []" "set n \<subseteq> N"
    and ws: "set ws \<subseteq> set white_space_chars"
    and r0: "r0 \<noteq> []" "hd r0 \<notin> N" "hd r0 \<notin> set white_space_chars"
  shows "out \<in> set (subgraph_cardinal res cg (sg0 @ n @ ws @ r0)) \<longleftrightarrow>
     (\<exists>neg w U. neg \<in> set (optional_graph_negative sg0)
        \<and> (n \<noteq> ''1'' \<and> w \<in> set (cg n) \<and> U \<in> set (unit_plural res r0)
            \<or> n = ''1'' \<and> w = ''one'' \<and> U \<in> set (unit_singular res r0))
        \<and> out = ''cardinal { '' @ neg @ ''integer: \"'' @ w @ ''\" } '' @ U)"
  (is "?L \<longleftrightarrow> ?R")
proof
  assume ?L
  then obtain sg n' ws' r neg w U where h: "sg0 @ n @ ws @ r0 = sg @ n' @ ws' @ r"
    "neg \<in> set (optional_graph_negative sg)" "set ws' \<subseteq> set white_space_chars"
    "n' \<noteq> ''1'' \<and> w \<in> set (cg n') \<and> U \<in> set (unit_plural res r)
       \<or> n' = ''1'' \<and> w = ''one'' \<and> U \<in> set (unit_singular res r)"
    "out = ''cardinal { '' @ neg @ ''integer: \"'' @ w @ ''\" } '' @ U"
    unfolding in_subgraph_cardinal_flat by blast
  from h(2) have sg: "sg = [] \<or> sg = ''-''" unfolding in_optional_graph_negative by blast
  from h(4) have n': "n' \<noteq> [] \<and> set n' \<subseteq> N"
  proof
    assume "n' \<noteq> ''1'' \<and> w \<in> set (cg n') \<and> U \<in> set (unit_plural res r)"
    then have "cg n' \<noteq> []" by auto
    with num show ?thesis by blast
  next
    assume "n' = ''1'' \<and> w = ''one'' \<and> U \<in> set (unit_singular res r)"
    with N(4) show ?thesis by simp
  qed
  from h(4) have "U \<in> set (unit_plural res r) \<or> U \<in> set (unit_singular res r)" by blast
  from unit_part_head [OF keys N(3) this]
  have r: "r \<noteq> []" "hd r \<notin> N" "hd r \<notin> set white_space_chars" by blast+
  from plain_parse_unique [OF N(1,2) sg0 n ws r0 sg _ _ h(3) r h(1)] n'
  have "sg = sg0" "n' = n" "r = r0" by blast+
  with h(2,4,5) show ?R by blast
next
  assume ?R
  then obtain neg w U where h: "neg \<in> set (optional_graph_negative sg0)"
    "n \<noteq> ''1'' \<and> w \<in> set (cg n) \<and> U \<in> set (unit_plural res r0)
       \<or> n = ''1'' \<and> w = ''one'' \<and> U \<in> set (unit_singular res r0)"
    "out = ''cardinal { '' @ neg @ ''integer: \"'' @ w @ ''\" } '' @ U"
    by blast
  with ws show ?L unfolding in_subgraph_cardinal_flat by blast
qed

lemma plain_decimal_tokens:
  assumes N: "N \<inter> set white_space_chars = {}" "CHR ''-'' \<notin> N" "CHR ''/'' \<notin> N"
    and num: "\<forall>s. final_graph_wo_negative decimal s \<noteq> [] \<longrightarrow> s \<noteq> [] \<and> set s \<subseteq> N"
    and keys: "\<forall>k v. (k, v) \<in> set (measurements_tsv res)
            \<longrightarrow> k \<noteq> [] \<and> hd k \<notin> N \<and> hd k \<notin> set white_space_chars"
    and sg0: "sg0 = [] \<or> sg0 = ''-''" and n: "n \<noteq> []" "set n \<subseteq> N"
    and ws: "set ws \<subseteq> set white_space_chars"
    and r0: "r0 \<noteq> []" "hd r0 \<notin> N" "hd r0 \<notin> set white_space_chars"
  shows "out \<in> set (subgraph_decimal res decimal (sg0 @ n @ ws @ r0)) \<longleftrightarrow>
     (\<exists>neg d U. neg \<in> set (optional_graph_negative sg0)
        \<and> d \<in> set (final_graph_wo_negative decimal n) \<and> U \<in> set (unit_plural res r0)
        \<and> out = ''decimal { '' @ neg @ d @ '' } '' @ U)"
  (is "?L \<longleftrightarrow> ?R")
proof
  assume ?L
  then obtain sg n' ws' r neg d U where h: "sg0 @ n @ ws @ r0 = sg @ n' @ ws' @ r"
    "neg \<in> set (optional_graph_negative sg)" "d \<in> set (final_graph_wo_negative decimal n')"
    "set ws' \<subseteq> set white_space_chars" "U \<in> set (unit_plural res r)"
    "out = ''decimal { '' @ neg @ d @ '' } '' @ U"
    unfolding in_subgraph_decimal by blast
  from h(2) have sg: "sg = [] \<or> sg = ''-''" unfolding in_optional_graph_negative by blast
  from h(3) have "final_graph_wo_negative decimal n' \<noteq> []" by auto
  with num have n': "n' \<noteq> []" "set n' \<subseteq> N" by blast+
  from h(5) have "U \<in> set (unit_plural res r) \<or> U \<in> set (unit_singular res r)" by blast
  from unit_part_head [OF keys N(3) this]
  have r: "r \<noteq> []" "hd r \<notin> N" "hd r \<notin> set white_space_chars" by blast+
  from plain_parse_unique [OF N(1,2) sg0 n ws r0 sg n' h(4) r h(1)]
  have "sg = sg0" "n' = n" "r = r0" by blast+
  with h(2,3,5,6) show ?R by blast
next
  assume ?R
  then obtain neg d U where h: "neg \<in> set (optional_graph_negative sg0)"
    "d \<in> set (final_graph_wo_negative decimal n)" "U \<in> set (unit_plural res r0)"
    "out = ''decimal { '' @ neg @ d @ '' } '' @ U"
    by blast
  with ws show ?L unfolding in_subgraph_decimal by blast
qed

lemma sample_12kg:
  "''cardinal { integer: \"twelve\" } units: \"kilograms\"''
     \<in> set (subgraph_cardinal sample_resources (graph sample_cardinal) ''12kg'')"
proof -
  have kg: "''kilograms'' \<in> set (graph_unit_plural sample_resources ''kg'')"
    using graph_unit_pluralI [of "''kg''" "''kilogram''" sample_resources "''kilograms''"]
    by (simp add: sample_resources_def)
  have "''cardinal { '' @ [] @ ''integer: \"'' @ ''twelve'' @ ''\"'' @ '' } ''
           @ ''units: \"'' @ (''kilograms'' @ []) @ ''\"''
          \<in> set (subgraph_cardinal sample_resources (graph sample_cardinal)
                 ([] @ ''12'' @ [] @ ''kg'' @ []))"
    by (intro subgraph_cardinal_pluralI [of _ "[]" "''12''" "''twelve''" _ "[]"]
          no_signI unit_plural_primaryI kg optional_graph_unit2_emptyI)
       (simp_all add: sample_cardinal_def string_file_def)
  then show ?thesis by simp
qed

subsection \<open>Whitespace between the number and the unit\<close>

text \<open>
  Claim C10. Both plain branches place \<open>delete_space\<close> between the numeric span and the
  unit rule. Let the numeric grammars accept only non-empty strings over a set \<open>N\<close> of
  numeric characters that holds the digit 1 and holds no whitespace, no \<open>-\<close> and no
  \<open>/\<close>, and let every unit of the table begin with a character that is neither numeric
  nor whitespace. Then for every numeric span \<open>n\<close>, with or without a sign before it,
  every unit \<open>k\<close> of the table and every stretch of whitespace \<open>ws\<close>, the plain cardinal
  branch has the same outputs on \<open>n ws k\<close> as on \<open>n k\<close>, and so has the plain decimal
  branch.
\<close>

theorem whitespace_before_unit:
  assumes "N \<inter> set white_space_chars = {}" and "CHR ''-'' \<notin> N" and "CHR ''/'' \<notin> N"
    and "CHR ''1'' \<in> N"
    and "\<forall>s. cg s \<noteq> [] \<longrightarrow> s \<noteq> [] \<and> set s \<subseteq> N"
    and "\<forall>s. final_graph_wo_negative decimal s \<noteq> [] \<longrightarrow> s \<noteq> [] \<and> set s \<subseteq> N"
    and "\<forall>k v. (k, v) \<in> set (measurements_tsv res)
            \<longrightarrow> k \<noteq> [] \<and> hd k \<notin> N \<and> hd k \<notin> set white_space_chars"
    and "sg = [] \<or> sg = ''-''" and "n \<noteq> []" and "set n \<subseteq> N"
    and "set ws \<subseteq> set white_space_chars"
    and "(k, v) \<in> set (measurements_tsv res)"
  shows "set (subgraph_cardinal res cg (sg @ n @ ws @ k))
           = set (subgraph_cardinal res cg (sg @ n @ k))
       \<and> set (subgraph_decimal res decimal (sg @ n @ ws @ k))
           = set (subgraph_decimal res decimal (sg @ n @ k))"
proof -
  from assms(7,12) have k: "k \<noteq> []" "hd k \<notin> N" "hd k \<notin> set white_space_chars" by blast+
  have e: "set [] \<subseteq> set white_space_chars" by simp
  note c = plain_cardinal_tokens [OF assms(1,2,3,4,5,7,8,9,10) _ k]
  note d = plain_decimal_tokens [OF assms(1,2,3,6,7,8,9,10) _ k]
  have "set (subgraph_cardinal res cg (sg @ n @ ws @ k))
           = set (subgraph_cardinal res cg (sg @ n @ [] @ k))"
    by (rule set_eqI) (simp only: c [OF assms(11)] c [OF e])
  moreover have "set (subgraph_decimal res decimal (sg @ n @ ws @ k))
           = set (subgraph_decimal res decimal (sg @ n @ [] @ k))"
    by (rule set_eqI) (simp only: d [OF assms(11)] d [OF e])
  ultimately show ?thesis by simp
qed

text \<open>The inputs \<open>12 kg\<close> and \<open>12kg\<close> with the sample collaborators; the numeric characters are the digits and the point.\<close>

theorem whitespace_before_unit_witness:
  "set (subgraph_cardinal sample_resources (graph sample_cardinal) ''12 kg'')
     = set (subgraph_cardinal sample_resources (graph sample_cardinal) ''12kg'')
   \<and> set (subgraph_decimal sample_resources sample_decimal ''.5  kg'')
     = set (subgraph_decimal sample_resources sample_decimal ''.5kg'')
   \<and> ''cardinal { integer: \"twelve\" } units: \"kilograms\"''
     \<in> set (subgraph_cardinal sample_resources (graph sample_cardinal) ''12 kg'')"
proof -
  let ?N = "set ''0123456789.''"
  have N: "?N \<inter> set white_space_chars = {}" "CHR ''-'' \<notin> ?N" "CHR ''/'' \<notin> ?N" "CHR ''1'' \<in> ?N"
    by (simp_all add: white_space_chars_def)
  have c: "\<forall>s. graph sample_cardinal s \<noteq> [] \<longrightarrow> s \<noteq> [] \<and> set s \<subseteq> ?N"
    by (auto simp: sample_cardinal_def string_file_def split: if_splits)
  have d: "\<forall>s. final_graph_wo_negative sample_decimal s \<noteq> [] \<longrightarrow> s \<noteq> [] \<and> set s \<subseteq> ?N"
    by (auto simp: sample_decimal_def string_file_def split: if_splits)
  have keys: "\<forall>k v. (k, v) \<in> set (measurements_tsv sample_resources)
            \<longrightarrow> k \<noteq> [] \<and> hd k \<notin> ?N \<and> hd k \<notin> set white_space_chars"
    by (auto simp: sample_resources_def white_space_chars_def)
  have kg: "(''kg'', ''kilogram'') \<in> set (measurements_tsv sample_resources)"
    by (simp add: sample_resources_def)
  note t = whitespace_before_unit [OF N c d keys _ _ _ _ kg, of "[]"]
  from t [of "''12''" "'' ''"]
  have a: "set (subgraph_cardinal sample_resources (graph sample_cardinal) ''12 kg'')
     = set (subgraph_cardinal sample_resources (graph sample_cardinal) ''12kg'')"
    by (simp add: white_space_chars_def)
  from t [of "''.5''" "''  ''"]
  have b: "set (subgraph_decimal sample_resources sample_decimal ''.5  kg'')
     = set (subgraph_decimal sample_resources sample_decimal ''.5kg'')"
    by (simp add: white_space_chars_def)
  from a b sample_12kg show ?thesis by simp
qed




















subsection \<open>Deterministic mode\<close>

text \<open>An input that no branch matches has no candidate; \<open>kg\<close>, with no number, is one.\<close>

lemma unmatched_input_no_candidate:
  "MeasureFst sample_resources sample_cardinal sample_decimal True ''kg'' = []"
  by code_simp



end
